theory Spec2Isabelle
  imports Complex_Main "HOL-Library.Sublist" "HOL-Library.AList"
begin

section \<open>Python values\<close>

text \<open>
  The agent of \<^verbatim>\<open>mai_desktop_navigation_agent.py\<close> works on Python strings and on the
  values that \<^verbatim>\<open>json.loads\<close> produces. A Python \<^verbatim>\<open>str\<close> is a sequence of code points,
  modelled as a list of natural numbers; \<open>py\<close> turns a literal into that form.
  Numbers (Python's \<^verbatim>\<open>int\<close> and \<^verbatim>\<open>float\<close>) are modelled as exact reals: rounding,
  overflow, infinities and NaN of IEEE doubles are not part of the model.
  A \<^verbatim>\<open>dict\<close> is an association list in insertion order, with distinct keys.
\<close>

type_synonym pystr = "nat list"

definition py :: "string \<Rightarrow> pystr" where
  "py s = map of_char s"

datatype json =
    JNull
  | JBool bool
  | JNum real
  | JStr pystr
  | JArr "json list"
  | JObj "(pystr \<times> json) list"

datatype error = ValueError | TypeError | KeyError | IndexError | AttributeError | LLMError

text \<open>Sequencing of computations that may raise: the first exception wins.\<close>

definition bind :: "error + 'a \<Rightarrow> ('a \<Rightarrow> error + 'b) \<Rightarrow> error + 'b" where
  "bind m f = (case m of Inl e \<Rightarrow> Inl e | Inr x \<Rightarrow> f x)"

text \<open>Truth value of an object, as \<^verbatim>\<open>if x\<close> and \<^verbatim>\<open>not x\<close> test it.\<close>

fun truthy :: "json \<Rightarrow> bool" where
  "truthy JNull = False"
| "truthy (JBool b) = b"
| "truthy (JNum r) = (r \<noteq> 0)"
| "truthy (JStr s) = (s \<noteq> [])"
| "truthy (JArr xs) = (xs \<noteq> [])"
| "truthy (JObj kvs) = (kvs \<noteq> [])"

text \<open>
  Python's \<^verbatim>\<open>==\<close>: \<^verbatim>\<open>True\<close> and \<^verbatim>\<open>False\<close> are the integers 1 and 0, lists are compared
  element by element, dicts by their keys and values whatever the order.
\<close>

function (sequential) py_eq :: "json \<Rightarrow> json \<Rightarrow> bool" where
  "py_eq JNull JNull = True"
| "py_eq (JBool a) (JBool b) = (a = b)"
| "py_eq (JBool a) (JNum y) = ((if a then 1 else 0) = y)"
| "py_eq (JNum x) (JBool b) = (x = (if b then 1 else 0))"
| "py_eq (JNum x) (JNum y) = (x = y)"
| "py_eq (JStr s) (JStr t) = (s = t)"
| "py_eq (JArr xs) (JArr ys) =
     (length xs = length ys \<and> list_all (\<lambda>(x, y). py_eq x y) (zip xs ys))"
| "py_eq (JObj a) (JObj b) =
     (length a = length b \<and>
      list_all (\<lambda>(k, v). case map_of b k of None \<Rightarrow> False | Some w \<Rightarrow> py_eq v w) a)"
| "py_eq _ _ = False"
  by pat_completeness auto

termination py_eq
proof (relation "measure (\<lambda>(a, b). size a)", goal_cases)
  case 1
  show ?case by simp
next
  case (2 xs ys p x y)
  have elem: "u \<in> set us \<Longrightarrow> size u < Suc (size_list size us)" for u :: json and us
    by (induction us) auto
  from 2 have "(x, y) \<in> set (zip xs ys)" by simp
  then have "x \<in> set xs" by (rule set_zip_leftD)
  then show ?case using elem [of x xs] by simp
next
  case (3 a b p k v w)
  have member: "(l, u) \<in> set kvs \<Longrightarrow> size u < Suc (size_list (size_prod (\<lambda>_. 0) size) kvs)"
    for l :: pystr and u :: json and kvs
    by (induction kvs) auto
  from 3 have "(k, v) \<in> set a" by simp
  then show ?case using member [of k v a] by simp
qed

text \<open>\<^verbatim>\<open>d.get(k, default)\<close> on a dict.\<close>

definition dict_get :: "(pystr \<times> json) list \<Rightarrow> pystr \<Rightarrow> json \<Rightarrow> json" where
  "dict_get kvs k d = (case map_of kvs k of None \<Rightarrow> d | Some v \<Rightarrow> v)"

text \<open>\<^verbatim>\<open>d[k] = v\<close>: an existing key keeps its place, a new key goes last.\<close>

definition dict_set :: "(pystr \<times> json) list \<Rightarrow> pystr \<Rightarrow> json \<Rightarrow> (pystr \<times> json) list" where
  "dict_set kvs k v = AList.update k v kvs"

text \<open>\<^verbatim>\<open>x.get(k, default)\<close> on any object: only a dict has the method.\<close>

fun py_get :: "json \<Rightarrow> pystr \<Rightarrow> json \<Rightarrow> error + json" where
  "py_get (JObj kvs) k d = Inr (dict_get kvs k d)"
| "py_get _ k d = Inl AttributeError"

text \<open>\<^verbatim>\<open>k in x\<close> for a string \<open>k\<close>: key of a dict, element of a list, substring of a string;
  the other objects are not containers.\<close>

fun is_substring :: "'a list \<Rightarrow> 'a list \<Rightarrow> bool" where
  "is_substring p [] = (p = [])"
| "is_substring p (x # xs) = (prefix p (x # xs) \<or> is_substring p xs)"

fun py_in :: "pystr \<Rightarrow> json \<Rightarrow> error + bool" where
  "py_in k (JObj kvs) = Inr (k \<in> set (map fst kvs))"
| "py_in k (JArr xs) = Inr (list_ex (py_eq (JStr k)) xs)"
| "py_in k (JStr s) = Inr (is_substring k s)"
| "py_in k _ = Inl TypeError"

text \<open>\<^verbatim>\<open>x[k]\<close> for a string \<open>k\<close>: a dict looks the key up, a list or a string refuses the index.\<close>

fun py_getitem :: "json \<Rightarrow> pystr \<Rightarrow> error + json" where
  "py_getitem (JObj kvs) k = (case map_of kvs k of None \<Rightarrow> Inl KeyError | Some v \<Rightarrow> Inr v)"
| "py_getitem _ k = Inl TypeError"

text \<open>A number as arithmetic sees it: a bool counts as 0 or 1, nothing else is a number.\<close>

fun num_of :: "json \<Rightarrow> error + real" where
  "num_of (JNum r) = Inr r"
| "num_of (JBool b) = Inr (if b then 1 else 0)"
| "num_of _ = Inl TypeError"


section \<open>Strings\<close>

text \<open>The code points that \<^verbatim>\<open>str.strip()\<close> removes (those for which \<^verbatim>\<open>str.isspace\<close> holds).\<close>

definition is_space :: "nat \<Rightarrow> bool" where
  "is_space c \<longleftrightarrow>
     (9 \<le> c \<and> c \<le> 13) \<or> (28 \<le> c \<and> c \<le> 32) \<or> c = 133 \<or> c = 160 \<or> c = 5760 \<or>
     (8192 \<le> c \<and> c \<le> 8202) \<or> c = 8232 \<or> c = 8233 \<or> c = 8239 \<or> c = 8287 \<or> c = 12288"

definition is_quote :: "nat \<Rightarrow> bool" where
  "is_quote c \<longleftrightarrow> c = 34"

definition strip_chars :: "(nat \<Rightarrow> bool) \<Rightarrow> pystr \<Rightarrow> pystr" where
  "strip_chars P s = rev (dropWhile P (rev (dropWhile P s)))"

text \<open>\<^verbatim>\<open>s.strip()\<close> and \<^verbatim>\<open>s.strip('"')\<close>.\<close>

definition strip :: "pystr \<Rightarrow> pystr" where
  "strip = strip_chars is_space"

definition strip_quotes :: "pystr \<Rightarrow> pystr" where
  "strip_quotes = strip_chars is_quote"

text \<open>\<^verbatim>\<open>s.replace(old, new)\<close> for a non-empty \<open>old\<close>: every occurrence, from the left,
  without overlap.\<close>

fun replace :: "'a list \<Rightarrow> 'a list \<Rightarrow> 'a list \<Rightarrow> 'a list" where
  "replace old new [] = []"
| "replace old new (x # xs) =
     (if prefix old (x # xs) then new @ replace old new (drop (length old - 1) xs)
      else x # replace old new xs)"

text \<open>The first occurrence of \<open>p\<close> in a string: what is before it, and what is after it.\<close>

fun find_sub :: "'a list \<Rightarrow> 'a list \<Rightarrow> ('a list \<times> 'a list) option" where
  "find_sub p [] = (if p = [] then Some ([], []) else None)"
| "find_sub p (x # xs) =
     (if prefix p (x # xs) then Some ([], drop (length p) (x # xs))
      else map_option (\<lambda>(a, b). (x # a, b)) (find_sub p xs))"

definition THINKING_OPEN :: pystr where "THINKING_OPEN = py ''<thinking>''"
definition THINKING_CLOSE :: pystr where "THINKING_CLOSE = py ''</thinking>''"
definition THINK_CLOSE :: pystr where "THINK_CLOSE = py ''</think>''"
definition INVOKE_OPEN :: pystr where "INVOKE_OPEN = py ''<invoke>''"
definition INVOKE_CLOSE :: pystr where "INVOKE_CLOSE = py ''</invoke>''"

text \<open>
  The pattern of \<^verbatim>\<open>parse_tagged_text\<close> is
  \<^verbatim>\<open><thinking>(.*?)</thinking>.*?</?invoke>(.*?)</invoke>\<close>, searched with \<^verbatim>\<open>re.DOTALL\<close>.
  \<open>find_open\<close> is the part \<^verbatim>\<open>.*?</?invoke>\<close>: it goes to the first place where one of the
  two markers starts and gives what follows the marker.

  Every quantifier of the pattern is lazy and \<^verbatim>\<open>.\<close> matches every character, so the
  search succeeds exactly when the four markers occur one after the other, and then
  the match starts at the first \<^verbatim>\<open><thinking>\<close>, group 1 ends at the first
  \<^verbatim>\<open></thinking>\<close> after it, the action block opens at the first invoke marker after
  that and group 2 ends at the first \<^verbatim>\<open></invoke>\<close> after the opening marker: were a
  later choice to lead to a match, the earlier one would too, as the skipped text is
  absorbed by the next \<^verbatim>\<open>.*?\<close>.
\<close>

fun find_open :: "pystr \<Rightarrow> pystr option" where
  "find_open [] = None"
| "find_open (x # xs) =
     (if prefix INVOKE_CLOSE (x # xs) then Some (drop (length INVOKE_CLOSE) (x # xs))
      else if prefix INVOKE_OPEN (x # xs) then Some (drop (length INVOKE_OPEN) (x # xs))
      else find_open xs)"

definition regex_search :: "pystr \<Rightarrow> (pystr \<times> pystr) option" where
  "regex_search text =
     (case find_sub THINKING_OPEN text of None \<Rightarrow> None
      | Some (before, r1) \<Rightarrow>
     (case find_sub THINKING_CLOSE r1 of None \<Rightarrow> None
      | Some (g1, r2) \<Rightarrow>
     (case find_open r2 of None \<Rightarrow> None
      | Some r3 \<Rightarrow>
     (case find_sub INVOKE_CLOSE r3 of None \<Rightarrow> None
      | Some (g2, after) \<Rightarrow> Some (g1, g2)))))"


section \<open>The JSON reader\<close>

text \<open>
  \<^verbatim>\<open>json.loads\<close> belongs to Python's library. It is modelled here after the grammar
  that the library's scanner implements: blanks are space, tab, line feed and carriage
  return; a string is read strictly (no raw control character) with the escapes
  \<^verbatim>\<open>\" \\ \/ \b \f \n \r \t \uXXXX\<close> and surrogate pairs joined; a number follows
  \<^verbatim>\<open>-?(0|[1-9][0-9]*)(\.[0-9]+)?([eE][-+]?[0-9]+)?\<close>; in an object a repeated key keeps
  its first place and its last value. The result \<open>None\<close> stands for
  \<^verbatim>\<open>json.JSONDecodeError\<close>. The constants \<^verbatim>\<open>NaN\<close>, \<^verbatim>\<open>Infinity\<close> and \<^verbatim>\<open>-Infinity\<close>, which
  the library also reads, have no counterpart among the exact reals and are not read;
  a number is read as its exact value, without the rounding to a double and without
  the overflow of a long literal to infinity.
\<close>

definition json_ws :: "nat \<Rightarrow> bool" where
  "json_ws c \<longleftrightarrow> c = 32 \<or> c = 9 \<or> c = 10 \<or> c = 13"

definition skip_ws :: "pystr \<Rightarrow> pystr" where
  "skip_ws = dropWhile json_ws"

definition is_digit :: "nat \<Rightarrow> bool" where
  "is_digit c \<longleftrightarrow> 48 \<le> c \<and> c \<le> 57"

definition digits_val :: "pystr \<Rightarrow> nat" where
  "digits_val ds = foldl (\<lambda>a d. 10 * a + (d - 48)) 0 ds"

definition hex_val :: "nat \<Rightarrow> nat option" where
  "hex_val c =
     (if 48 \<le> c \<and> c \<le> 57 then Some (c - 48)
      else if 97 \<le> c \<and> c \<le> 102 then Some (c - 87)
      else if 65 \<le> c \<and> c \<le> 70 then Some (c - 55)
      else None)"

definition hex4 :: "pystr \<Rightarrow> nat option" where
  "hex4 s =
     (case s of
        a # b # c # d # rest \<Rightarrow>
          (case (hex_val a, hex_val b, hex_val c, hex_val d) of
             (Some w, Some x, Some y, Some z) \<Rightarrow> Some (((w * 16 + x) * 16 + y) * 16 + z)
           | _ \<Rightarrow> None)
      | _ \<Rightarrow> None)"

definition escape_char :: "nat \<Rightarrow> nat option" where
  "escape_char e =
     (if e = 34 then Some 34 else if e = 92 then Some 92 else if e = 47 then Some 47
      else if e = 98 then Some 8 else if e = 102 then Some 12 else if e = 110 then Some 10
      else if e = 114 then Some 13 else if e = 116 then Some 9 else None)"

definition push :: "nat \<Rightarrow> (pystr \<times> pystr) option \<Rightarrow> (pystr \<times> pystr) option" where
  "push c r = map_option (\<lambda>(str, rest). (c # str, rest)) r"

text \<open>The contents of a string literal, read from behind its opening quote, and the rest
  of the input behind its closing quote.\<close>

fun scan_string :: "pystr \<Rightarrow> (pystr \<times> pystr) option" where
  "scan_string [] = None"
| "scan_string (c # cs) =
     (if c = 34 then Some ([], cs)
      else if c = 92 then
        (case cs of
           [] \<Rightarrow> None
         | e # r \<Rightarrow>
             if e = 117 then
               (case hex4 r of
                  None \<Rightarrow> None
                | Some u \<Rightarrow>
                    if 55296 \<le> u \<and> u \<le> 56319 \<and> 6 < length (drop 4 r)
                       \<and> prefix [92, 117] (drop 4 r)
                    then
                      (case hex4 (drop 6 r) of
                         None \<Rightarrow> None
                       | Some u2 \<Rightarrow>
                           if 56320 \<le> u2 \<and> u2 \<le> 57343
                           then push (65536 + (u - 55296) * 1024 + (u2 - 56320))
                                  (scan_string (drop 10 r))
                           else push u (scan_string (drop 4 r)))
                    else push u (scan_string (drop 4 r)))
             else
               (case escape_char e of
                  None \<Rightarrow> None
                | Some ch \<Rightarrow> push ch (scan_string r)))
      else if c < 32 then None
      else push c (scan_string cs))"

text \<open>The parts of a number: the digits of the integer part, of the fraction (none when
  no digit follows the point) and of the exponent (none when no digit follows the
  letter and its sign), each with the rest of the input.\<close>

definition scan_int :: "pystr \<Rightarrow> (pystr \<times> pystr) option" where
  "scan_int s =
     (case s of
        [] \<Rightarrow> None
      | c # r \<Rightarrow>
          if c = 48 then Some ([48], r)
          else if is_digit c then Some (takeWhile is_digit s, dropWhile is_digit s)
          else None)"

definition scan_frac :: "pystr \<Rightarrow> pystr \<times> pystr" where
  "scan_frac s =
     (case s of
        [] \<Rightarrow> ([], s)
      | c # r \<Rightarrow>
          if c = 46 \<and> takeWhile is_digit r \<noteq> [] then (takeWhile is_digit r, dropWhile is_digit r)
          else ([], s))"

definition scan_exp :: "pystr \<Rightarrow> (bool \<times> pystr) \<times> pystr" where
  "scan_exp s =
     (case s of
        [] \<Rightarrow> ((False, []), s)
      | e # r \<Rightarrow>
          if e = 101 \<or> e = 69 then
            (case r of
               [] \<Rightarrow> ((False, []), s)
             | sg # r' \<Rightarrow>
                 if sg = 45 \<or> sg = 43 then
                   (if takeWhile is_digit r' \<noteq> []
                    then ((sg = 45, takeWhile is_digit r'), dropWhile is_digit r')
                    else ((False, []), s))
                 else if takeWhile is_digit r \<noteq> []
                   then ((False, takeWhile is_digit r), dropWhile is_digit r)
                   else ((False, []), s))
          else ((False, []), s))"

definition number_value :: "pystr \<Rightarrow> pystr \<Rightarrow> bool \<Rightarrow> pystr \<Rightarrow> real" where
  "number_value ip fp eneg ep =
     (if ep = [] then real (digits_val ip) + real (digits_val fp) / 10 ^ length fp
      else if eneg
        then (real (digits_val ip) + real (digits_val fp) / 10 ^ length fp) / 10 ^ digits_val ep
        else (real (digits_val ip) + real (digits_val fp) / 10 ^ length fp) * 10 ^ digits_val ep)"

definition scan_unsigned :: "pystr \<Rightarrow> (real \<times> pystr) option" where
  "scan_unsigned s =
     (case scan_int s of
        None \<Rightarrow> None
      | Some (ip, s2) \<Rightarrow>
          (case scan_frac s2 of
             (fp, s3) \<Rightarrow>
               (case scan_exp s3 of
                  ((eneg, ep), rest) \<Rightarrow> Some (number_value ip fp eneg ep, rest))))"

definition scan_number :: "pystr \<Rightarrow> (real \<times> pystr) option" where
  "scan_number s =
     (case s of
        [] \<Rightarrow> None
      | c # r \<Rightarrow>
          if c = 45 then map_option (\<lambda>(v, rest). (- v, rest)) (scan_unsigned r)
          else scan_unsigned s)"

text \<open>
  The recursive descent over values, array elements and object members. The first
  argument bounds the number of nested calls; \<open>json_loads\<close> starts it above twice the
  length of the input, and of two calls nested in one another at least one follows a
  character read, so the bound is never what ends the reading of an input. The
  recursion limit of the interpreter is not modelled.
\<close>

fun parse_value :: "nat \<Rightarrow> pystr \<Rightarrow> (json \<times> pystr) option"
  and parse_elems :: "nat \<Rightarrow> json list \<Rightarrow> pystr \<Rightarrow> (json \<times> pystr) option"
  and parse_members :: "nat \<Rightarrow> (pystr \<times> json) list \<Rightarrow> pystr \<Rightarrow> (json \<times> pystr) option"
where
  "parse_value 0 s = None"
| "parse_value (Suc n) s =
     (case s of
        [] \<Rightarrow> None
      | c # r \<Rightarrow>
          if c = 34 then map_option (\<lambda>(str, rest). (JStr str, rest)) (scan_string r)
          else if c = 123 then
            (case skip_ws r of
               [] \<Rightarrow> None
             | d # r' \<Rightarrow>
                 if d = 125 then Some (JObj [], r')
                 else if d = 34 then parse_members n [] (d # r')
                 else None)
          else if c = 91 then
            (case skip_ws r of
               [] \<Rightarrow> None
             | d # r' \<Rightarrow>
                 if d = 93 then Some (JArr [], r')
                 else parse_elems n [] (d # r'))
          else if prefix (py ''null'') s then Some (JNull, drop 4 s)
          else if prefix (py ''true'') s then Some (JBool True, drop 4 s)
          else if prefix (py ''false'') s then Some (JBool False, drop 5 s)
          else map_option (\<lambda>(v, rest). (JNum v, rest)) (scan_number s))"
| "parse_elems 0 acc s = None"
| "parse_elems (Suc n) acc s =
     (case parse_value n s of
        None \<Rightarrow> None
      | Some (v, rest) \<Rightarrow>
          (case skip_ws rest of
             [] \<Rightarrow> None
           | d # r \<Rightarrow>
               if d = 44 then parse_elems n (acc @ [v]) (skip_ws r)
               else if d = 93 then Some (JArr (acc @ [v]), r)
               else None))"
| "parse_members 0 acc s = None"
| "parse_members (Suc n) acc s =
     (case s of
        [] \<Rightarrow> None
      | q # r \<Rightarrow>
          if q \<noteq> 34 then None
          else
            (case scan_string r of
               None \<Rightarrow> None
             | Some (k, rest) \<Rightarrow>
                 (case skip_ws rest of
                    [] \<Rightarrow> None
                  | colon # r2 \<Rightarrow>
                      if colon \<noteq> 58 then None
                      else
                        (case parse_value n (skip_ws r2) of
                           None \<Rightarrow> None
                         | Some (v, rest2) \<Rightarrow>
                             (case skip_ws rest2 of
                                [] \<Rightarrow> None
                              | d # r3 \<Rightarrow>
                                  if d = 44 then parse_members n (dict_set acc k v) (skip_ws r3)
                                  else if d = 125 then Some (JObj (dict_set acc k v), r3)
                                  else None)))))"

definition json_loads :: "pystr \<Rightarrow> json option" where
  "json_loads s =
     (if prefix [65279] s then None
      else
        (case parse_value (2 * length s + 2) (skip_ws s) of
           None \<Rightarrow> None
         | Some (v, rest) \<Rightarrow> if skip_ws rest = [] then Some v else None))"


section \<open>The response parser\<close>

definition ARGUMENTS :: pystr where "ARGUMENTS = py ''arguments''"
definition ACTION :: pystr where "ACTION = py ''action''"
definition COORDINATE :: pystr where "COORDINATE = py ''coordinate''"
definition START_COORDINATE :: pystr where "START_COORDINATE = py ''start_coordinate''"
definition END_COORDINATE :: pystr where "END_COORDINATE = py ''end_coordinate''"

definition SCALE_FACTOR :: real where "SCALE_FACTOR = 999"

text \<open>The rewriting of the alternate end-of-reasoning marker (source lines 83 to 85).\<close>

definition think_shim :: "pystr \<Rightarrow> pystr" where
  "think_shim text =
     (if is_substring THINK_CLOSE text \<and> \<not> is_substring THINKING_CLOSE text
      then THINKING_OPEN @ replace THINK_CLOSE THINKING_CLOSE text
      else text)"

text \<open>
  \<^verbatim>\<open>parse_tagged_text\<close>: the pair is the dict with the keys \<^verbatim>\<open>thinking\<close> and
  \<^verbatim>\<open>tool_call\<close>. An empty body is falsy, is not handed to the JSON reader and stays
  the empty string; a body that is not JSON raises \<^verbatim>\<open>ValueError\<close>.
\<close>

definition parse_tagged_text :: "pystr \<Rightarrow> error + (pystr option \<times> json)" where
  "parse_tagged_text text =
     (case regex_search (think_shim text) of
        None \<Rightarrow> Inr (None, JNull)
      | Some (g1, g2) \<Rightarrow>
          let thinking = strip_quotes (strip g1);
              tool_call = strip_quotes (strip g2)
          in if tool_call \<noteq> [] then
               (case json_loads tool_call of
                  None \<Rightarrow> Inl ValueError
                | Some v \<Rightarrow> Inr (Some thinking, v))
             else Inr (Some thinking, JStr []))"

text \<open>The choice between the wrapped and the direct format (source lines 140 to 145).\<close>

definition select_action :: "json \<Rightarrow> error + json" where
  "select_action tool_call =
     bind (py_in ARGUMENTS tool_call) (\<lambda>wrapped.
       if wrapped then py_getitem tool_call ARGUMENTS
       else bind (py_in ACTION tool_call) (\<lambda>direct.
         if direct then Inr tool_call else Inl ValueError))"

text \<open>
  What \<^verbatim>\<open>len\<close> and the unpacking of \<^verbatim>\<open>coordinates\<close> see: the elements of a list,
  the characters of a string, the keys of a dict; the other objects have no length.
\<close>

fun elements :: "json \<Rightarrow> error + json list" where
  "elements (JArr xs) = Inr xs"
| "elements (JStr s) = Inr (map (\<lambda>c. JStr [c]) s)"
| "elements (JObj kvs) = Inr (map (\<lambda>kv. JStr (fst kv)) kvs)"
| "elements _ = Inl TypeError"

text \<open>\<^verbatim>\<open>(a + b) / 2\<close>: whatever \<^verbatim>\<open>a + b\<close> gives on strings or lists, the division
  accepts numbers only, and every failure is a \<^verbatim>\<open>TypeError\<close>.\<close>

definition center :: "json \<Rightarrow> json \<Rightarrow> error + json" where
  "center a b = bind (num_of a) (\<lambda>x. bind (num_of b) (\<lambda>y. Inr (JNum ((x + y) / 2))))"

text \<open>The pair of a coordinate: its two values, or the center of its four (source
  lines 151 to 160, and again 170 to 179 and 188 to 197).\<close>

definition collapse :: "json \<Rightarrow> error + (json \<times> json)" where
  "collapse coordinates =
     bind (elements coordinates) (\<lambda>xs.
       case xs of
         [point_x, point_y] \<Rightarrow> Inr (point_x, point_y)
       | [x1, y1, x2, y2] \<Rightarrow>
           bind (center x1 x2) (\<lambda>point_x. bind (center y1 y2) (\<lambda>point_y. Inr (point_x, point_y)))
       | _ \<Rightarrow> Inl ValueError)"

text \<open>The division by the scale (source lines 163 to 166): the comparisons and the
  divisions accept numbers only.\<close>

definition normalize_point :: "json \<Rightarrow> json \<Rightarrow> error + json" where
  "normalize_point point_x point_y =
     bind (num_of point_x) (\<lambda>x. bind (num_of point_y) (\<lambda>y.
       if x > 1 \<or> y > 1 then Inr (JArr [JNum (x / SCALE_FACTOR), JNum (y / SCALE_FACTOR)])
       else Inr (JArr [point_x, point_y])))"

fun py_setitem :: "json \<Rightarrow> pystr \<Rightarrow> json \<Rightarrow> error + json" where
  "py_setitem (JObj kvs) k v = Inr (JObj (dict_set kvs k v))"
| "py_setitem _ k v = Inl TypeError"

text \<open>One of the three blocks \<^verbatim>\<open>if key in action: ...\<close> of
  \<^verbatim>\<open>parse_action_to_structure_output\<close>; the three differ in the key only.\<close>

definition normalize_field :: "pystr \<Rightarrow> json \<Rightarrow> error + json" where
  "normalize_field key action =
     bind (py_in key action) (\<lambda>present.
       if present then
         bind (py_getitem action key) (\<lambda>coordinates.
         bind (collapse coordinates) (\<lambda>(point_x, point_y).
         bind (normalize_point point_x point_y) (\<lambda>point.
           py_setitem action key point)))
       else Inr action)"

definition normalize_action :: "json \<Rightarrow> error + json" where
  "normalize_action action =
     bind (normalize_field COORDINATE action) (\<lambda>a1.
     bind (normalize_field START_COORDINATE a1) (\<lambda>a2.
       normalize_field END_COORDINATE a2))"

text \<open>\<^verbatim>\<open>parse_action_to_structure_output\<close>: the pair is the dict with the keys
  \<^verbatim>\<open>thinking\<close> and \<^verbatim>\<open>action_json\<close>.\<close>

definition parse_action_to_structure_output :: "pystr \<Rightarrow> error + (pystr option \<times> json)" where
  "parse_action_to_structure_output text =
     bind (parse_tagged_text (strip text)) (\<lambda>(thinking, tool_call).
     bind (select_action tool_call) (\<lambda>action.
     bind (normalize_action action) (\<lambda>action_json.
       Inr (thinking, action_json))))"






section \<open>Rendering a stored coordinate\<close>

text \<open>\<^verbatim>\<open>int(x)\<close> on a number: truncation towards zero.\<close>

definition py_int :: "real \<Rightarrow> real" where
  "py_int x = (if 0 \<le> x then of_int \<lfloor>x\<rfloor> else of_int \<lceil>x\<rceil>)"



section \<open>The trajectory and the prediction cycle\<close>

text \<open>
  Modelled from the spec: the classes \<^verbatim>\<open>TrajStep\<close> (module \<^verbatim>\<open>unified_memory\<close>) and
  \<^verbatim>\<open>BaseAgent\<close> with its \<^verbatim>\<open>traj_memory\<close> (module \<^verbatim>\<open>base\<close>) are not among the sources.
  A step has the fields that \<^verbatim>\<open>predict\<close> passes to the constructor, without the
  opaque ones (screenshot, accessibility tree, agent and model names); the trajectory
  is the task goal, unset at first, and the ordered steps.
\<close>

record traj_step =
  prediction :: pystr
  action :: json
  conclusion :: pystr
  thought :: "pystr option"
  step_index :: nat
  structured_action :: json

record traj_memory =
  task_goal :: "pystr option"
  steps :: "traj_step list"

definition CLICK_ACTION :: pystr where "CLICK_ACTION = py ''click''"
definition TYPE_ACTION :: pystr where "TYPE_ACTION = py ''type''"
definition LAUNCH_ACTION :: pystr where "LAUNCH_ACTION = py ''launch''"
definition TEXT :: pystr where "TEXT = py ''text''"

definition WAIT_ACTION :: json where
  "WAIT_ACTION = JObj [(ACTION, JStr (py ''wait'')), (py ''duration'', JNum 2)]"

text \<open>The text that replaces the prediction of a blocked action: the reasoning between
  its tags (\<^verbatim>\<open>None\<close> is printed as such), a space, the sign U+26D4, a space and seven
  Chinese characters.\<close>

definition blocked_prediction :: "pystr option \<Rightarrow> pystr" where
  "blocked_prediction thinking =
     THINKING_OPEN @ (case thinking of None \<Rightarrow> py ''None'' | Some t \<Rightarrow> t) @ THINKING_CLOSE
     @ [32, 9940, 32, 37325, 22797, 21160, 20316, 34987, 38459, 27490]"

fun py_len :: "json \<Rightarrow> error + nat" where
  "py_len (JArr xs) = Inr (length xs)"
| "py_len (JStr s) = Inr (length s)"
| "py_len (JObj kvs) = Inr (length kvs)"
| "py_len _ = Inl TypeError"

text \<open>\<^verbatim>\<open>x[i]\<close> for an index \<open>i\<close> that is not negative: a dict has string keys only.\<close>

fun py_index :: "json \<Rightarrow> nat \<Rightarrow> error + json" where
  "py_index (JArr xs) i = (if i < length xs then Inr (xs ! i) else Inl IndexError)"
| "py_index (JStr s) i = (if i < length s then Inr (JStr [s ! i]) else Inl IndexError)"
| "py_index (JObj kvs) i = Inl KeyError"
| "py_index _ i = Inl TypeError"

definition py_sub :: "json \<Rightarrow> json \<Rightarrow> error + real" where
  "py_sub a b = bind (num_of a) (\<lambda>x. bind (num_of b) (\<lambda>y. Inr (x - y)))"

text \<open>
  \<^verbatim>\<open>str.lower\<close> belongs to Python's library and follows the case tables of Unicode,
  which are not part of the program: the function is the parameter \<open>str_lower\<close> of the
  guard and of everything that calls the guard. On an object that is not a string
  the method does not exist.
\<close>

fun py_lower :: "(pystr \<Rightarrow> pystr) \<Rightarrow> json \<Rightarrow> error + pystr" where
  "py_lower str_lower (JStr s) = Inr (str_lower s)"
| "py_lower str_lower _ = Inl AttributeError"

text \<open>The three tests of the duplicate guard (source lines 595 to 612), each giving
  the value of \<^verbatim>\<open>is_duplicate\<close>.\<close>

definition click_duplicate :: "json \<Rightarrow> json \<Rightarrow> error + bool" where
  "click_duplicate last_action action_json =
     bind (py_get last_action COORDINATE (JArr [])) (\<lambda>last_coord.
     bind (py_get action_json COORDINATE (JArr [])) (\<lambda>curr_coord.
     bind (py_len last_coord) (\<lambda>n1.
       if n1 \<noteq> 2 then Inr False
       else bind (py_len curr_coord) (\<lambda>n2.
         if n2 \<noteq> 2 then Inr False
         else
           bind (py_index last_coord 0) (\<lambda>l0.
           bind (py_index curr_coord 0) (\<lambda>c0.
           bind (py_sub l0 c0) (\<lambda>dx.
           bind (py_index last_coord 1) (\<lambda>l1.
           bind (py_index curr_coord 1) (\<lambda>c1.
           bind (py_sub l1 c1) (\<lambda>dy.
             Inr (sqrt (dx\<^sup>2 + dy\<^sup>2) < 0.03)))))))))))"

definition type_duplicate :: "json \<Rightarrow> json \<Rightarrow> error + bool" where
  "type_duplicate last_action action_json =
     bind (py_get last_action TEXT (JStr [])) (\<lambda>last_text.
     bind (py_get action_json TEXT (JStr [])) (\<lambda>curr_text.
       Inr (py_eq last_text curr_text \<and> truthy last_text)))"

definition launch_duplicate :: "(pystr \<Rightarrow> pystr) \<Rightarrow> json \<Rightarrow> json \<Rightarrow> error + bool" where
  "launch_duplicate str_lower last_action action_json =
     bind (py_get last_action TEXT (JStr [])) (\<lambda>t1.
     bind (py_lower str_lower t1) (\<lambda>last_text.
     bind (py_get action_json TEXT (JStr [])) (\<lambda>t2.
     bind (py_lower str_lower t2) (\<lambda>curr_text.
       Inr (last_text = curr_text)))))"

text \<open>The guard (source lines 588 to 612), for a trajectory that has a last step:
  whether the action just parsed repeats the action of that step.\<close>

definition is_duplicate :: "(pystr \<Rightarrow> pystr) \<Rightarrow> json \<Rightarrow> json \<Rightarrow> error + bool" where
  "is_duplicate str_lower last_action action_json =
     bind (py_get action_json ACTION (JStr [])) (\<lambda>current_action_type.
       if \<not> truthy last_action then Inr False
       else
         bind (py_get last_action ACTION (JStr [])) (\<lambda>last_action_type.
           if \<not> py_eq current_action_type last_action_type then Inr False
           else if py_eq current_action_type (JStr CLICK_ACTION) then click_duplicate last_action action_json
           else if py_eq current_action_type (JStr TYPE_ACTION) then type_duplicate last_action action_json
           else if py_eq current_action_type (JStr LAUNCH_ACTION) then launch_duplicate str_lower last_action action_json
           else Inr False))"

text \<open>
  One pass through the body of the \<^verbatim>\<open>try\<close> statement. The model endpoint is outside
  the program: its answer to an attempt is a text, or \<open>None\<close> when the call raises or
  gives no text. The body leaves the loop at one of two \<^verbatim>\<open>break\<close> statements: with the
  parsed action, or with a blocked duplicate.
\<close>

datatype outcome =
    Passed pystr json "pystr option"
  | Blocked "pystr option"

definition attempt :: "(pystr \<Rightarrow> pystr) \<Rightarrow> traj_step list \<Rightarrow> pystr option \<Rightarrow> error + outcome" where
  "attempt str_lower history reply =
     (case reply of
        None \<Rightarrow> Inl LLMError
      | Some content \<Rightarrow>
          bind (parse_action_to_structure_output (strip content)) (\<lambda>(thinking, action_json).
            if history \<noteq> [] then
              bind (is_duplicate str_lower (action (last history)) action_json) (\<lambda>dup.
                if dup then Inr (Blocked thinking)
                else Inr (Passed (strip content) action_json thinking))
            else Inr (Passed (strip content) action_json thinking)))"

text \<open>The loop \<^verbatim>\<open>for attempt in range(max_retries)\<close>: \<open>retry n i\<close> runs the attempts
  \<open>i\<close>, \<open>i + 1\<close>, ... at most \<open>n\<close> of them, up to the first that does not raise.\<close>

fun retry :: "(pystr \<Rightarrow> pystr) \<Rightarrow> nat \<Rightarrow> nat \<Rightarrow> (nat \<Rightarrow> pystr option) \<Rightarrow> traj_step list \<Rightarrow> outcome option" where
  "retry str_lower 0 i llm history = None"
| "retry str_lower (Suc n) i llm history =
     (case attempt str_lower history (llm i) of
        Inr out \<Rightarrow> Some out
      | Inl e \<Rightarrow> retry str_lower n (Suc i) llm history)"

definition max_retries :: nat where "max_retries = 3"

definition FAILURE :: "pystr \<times> json" where
  "FAILURE = (py ''llm client error'', JObj [(ACTION, JNull)])"

definition goal_unset :: "pystr option \<Rightarrow> bool" where
  "goal_unset g \<longleftrightarrow> g = None \<or> g = Some []"

definition new_step :: "traj_memory \<Rightarrow> pystr \<Rightarrow> json \<Rightarrow> pystr option \<Rightarrow> pystr \<Rightarrow> traj_step" where
  "new_step mem pred act thinking execution_result =
     \<lparr> prediction = pred, action = act, conclusion = execution_result, thought = thinking,
       step_index = length (steps mem),
       structured_action = JObj [(py ''action_json'', act)] \<rparr>"

text \<open>
  \<^verbatim>\<open>predict\<close>, from the trajectory, the instruction, the execution result of the
  observation (the empty string when there is none) and the answers of the model
  endpoint, to the new trajectory and the returned pair. The decoding of the
  screenshot and the building of the messages (source lines 538 to 552) read the
  trajectory and write nothing; they are left out, so the model is of the cycles that
  reach the first attempt.
\<close>

definition predict ::
  "(pystr \<Rightarrow> pystr) \<Rightarrow> traj_memory \<Rightarrow> pystr \<Rightarrow> pystr \<Rightarrow> (nat \<Rightarrow> pystr option) \<Rightarrow> traj_memory \<times> (pystr \<times> json)" where
  "predict str_lower mem instruction execution_result llm =
     (let mem1 = (if goal_unset (task_goal mem) then mem\<lparr>task_goal := Some instruction\<rparr> else mem)
      in case retry str_lower max_retries 0 llm (steps mem1) of
           None \<Rightarrow> (mem1, FAILURE)
         | Some (Passed pred action_json thinking) \<Rightarrow>
             if action_json = JNull then (mem1, FAILURE)
             else (mem1\<lparr>steps := steps mem1 @ [new_step mem1 pred action_json thinking execution_result]\<rparr>,
                   (pred, action_json))
         | Some (Blocked thinking) \<Rightarrow>
             (mem1\<lparr>steps := steps mem1 @ [new_step mem1 (blocked_prediction thinking) WAIT_ACTION
                                             thinking execution_result]\<rparr>,
              (blocked_prediction thinking, WAIT_ACTION)))"


section \<open>Sample trajectories and replies\<close>

text \<open>The inputs at which the theorems below are instantiated: for \<^verbatim>\<open>str.lower\<close> what
  it gives on a string of Basic Latin code points, an endpoint that never
  answers, an endpoint that always gives the same text, the empty trajectory, and a
  trajectory whose only step is a click at the centre of the screen.\<close>

definition ascii_lower :: "pystr \<Rightarrow> pystr" where
  "ascii_lower s = map (\<lambda>c. if 65 \<le> c \<and> c \<le> 90 then c + 32 else c) s"

definition no_reply :: "nat \<Rightarrow> pystr option" where
  "no_reply i = None"

definition always :: "pystr \<Rightarrow> nat \<Rightarrow> pystr option" where
  "always text i = Some text"

definition empty_memory :: traj_memory where
  "empty_memory = \<lparr> task_goal = None, steps = [] \<rparr>"

definition click_step :: traj_step where
  "click_step =
     \<lparr> prediction = py ''first'',
       action = JObj [(ACTION, JStr CLICK_ACTION), (COORDINATE, JArr [JNum (1 / 2), JNum (1 / 2)])],
       conclusion = [], thought = Some (py ''first''), step_index = 0,
       structured_action = JObj [(py ''action_json'',
         JObj [(ACTION, JStr CLICK_ACTION), (COORDINATE, JArr [JNum (1 / 2), JNum (1 / 2)])])] \<rparr>"

definition click_memory :: traj_memory where
  "click_memory = \<lparr> task_goal = Some (py ''go''), steps = [click_step] \<rparr>"

definition far_reply :: pystr where
  \<open>far_reply = py ''<thinking>next</thinking><invoke>{"action":"click","coordinate":[0.6,0.6]}</invoke>''\<close>

definition click_reply :: pystr where
  \<open>click_reply = py ''<thinking>again</thinking><invoke>{"action":"click","coordinate":[0.51,0.51]}</invoke>''\<close>




text \<open>Replies of the model: a reasoning and a body in stray double quotes, a body that
  is not JSON, a text without markers, a wrapped and a direct body, and an action
  block opened with each of the two markers.\<close>

definition quoted_reply :: pystr where
  \<open>quoted_reply = py ''<thinking>"ok"</thinking><invoke> "{"action":"wait"}" </invoke>''\<close>

definition malformed_reply :: pystr where
  \<open>malformed_reply = py ''<thinking>r</thinking><invoke>{bad</invoke>''\<close>

definition untagged_reply :: pystr where
  \<open>untagged_reply = py ''no tags here''\<close>

definition wrapped_reply :: pystr where
  \<open>wrapped_reply = py ''<thinking>ok</thinking><invoke>{"name":"desktop_use","arguments":{"action":"wait"}}</invoke>''\<close>

definition direct_reply :: pystr where
  \<open>direct_reply = py ''<thinking>ok</thinking><invoke>{"action":"wait"}</invoke>''\<close>

definition open_reply :: pystr where
  \<open>open_reply = py ''<thinking>ok</thinking> <invoke>{"action":"wait"}</invoke>''\<close>

definition close_reply :: pystr where
  \<open>close_reply = py ''<thinking>ok</thinking> </invoke>{"action":"wait"}</invoke>''\<close>

section \<open>Evaluation of the parser on a given text\<close>

lemma parse_numeral:
  "parse_value (numeral k) s = parse_value (Suc (pred_numeral k)) s"
  "parse_elems (numeral k) acc s = parse_elems (Suc (pred_numeral k)) acc s"
  "parse_members (numeral k) kvs s = parse_members (Suc (pred_numeral k)) kvs s"
  by (simp_all only: numeral_eq_Suc)

lemmas parse_value_numeral = parse_value.simps(2) [of "pred_numeral k" for k, folded parse_numeral(1)]
lemmas parse_elems_numeral = parse_elems.simps(2) [of "pred_numeral k" for k, folded parse_numeral(2)]
lemmas parse_members_numeral = parse_members.simps(2) [of "pred_numeral k" for k, folded parse_numeral(3)]

lemmas json_eval = json_loads_def parse_value_numeral parse_elems_numeral parse_members_numeral
  skip_ws_def json_ws_def push_def dict_set_def scan_number_def scan_unsigned_def scan_int_def
  scan_frac_def scan_exp_def number_value_def is_digit_def digits_val_def
  escape_char_def hex4_def hex_val_def py_def

lemmas tag_eval = THINKING_OPEN_def THINKING_CLOSE_def THINK_CLOSE_def INVOKE_OPEN_def INVOKE_CLOSE_def
  py_def

lemmas key_eval = ARGUMENTS_def ACTION_def COORDINATE_def START_COORDINATE_def END_COORDINATE_def
  CLICK_ACTION_def TYPE_ACTION_def LAUNCH_ACTION_def TEXT_def py_def

lemmas parser_eval = parse_action_to_structure_output_def parse_tagged_text_def think_shim_def
  regex_search_def strip_def strip_quotes_def strip_chars_def is_space_def is_quote_def
  select_action_def normalize_action_def normalize_field_def collapse_def center_def
  normalize_point_def SCALE_FACTOR_def


section \<open>Properties of the coordinate codec\<close>

lemma bind_simps [simp]: "bind (Inl e) f = Inl e" "bind (Inr x) f = f x"
  by (simp_all add: bind_def)

lemma py_in_dict: "(k \<in> fst ` set kvs) = (map_of kvs k \<noteq> None)"
  by (simp add: map_of_eq_None_iff)

lemma map_of_dict_set: "map_of (dict_set kvs k v) = (map_of kvs)(k \<mapsto> v)"
  by (simp add: dict_set_def update_conv')

lemma dict_set_twice: "dict_set (dict_set kvs k v) k w = dict_set kvs k w"
  by (simp add: dict_set_def)

lemma normalize_field_pair:
  assumes "map_of kvs key = Some (JArr [JNum x, JNum y])"
  shows "normalize_field key (JObj kvs) =
     Inr (JObj (dict_set kvs key
       (if x \<le> 1 \<and> y \<le> 1 then JArr [JNum x, JNum y]
        else JArr [JNum (x / SCALE_FACTOR), JNum (y / SCALE_FACTOR)])))"
  using assms by (auto simp: normalize_field_def py_in_dict collapse_def normalize_point_def)

lemma normalize_field_box:
  assumes "map_of kvs key = Some (JArr [JNum x1, JNum y1, JNum x2, JNum y2])"
  shows "normalize_field key (JObj kvs) =
     Inr (JObj (dict_set kvs key
       (if (x1 + x2) / 2 \<le> 1 \<and> (y1 + y2) / 2 \<le> 1 then JArr [JNum ((x1 + x2) / 2), JNum ((y1 + y2) / 2)]
        else JArr [JNum ((x1 + x2) / 2 / SCALE_FACTOR), JNum ((y1 + y2) / 2 / SCALE_FACTOR)])))"
  using assms by (auto simp: normalize_field_def py_in_dict collapse_def center_def normalize_point_def)

lemma normalize_field_bad_length:
  assumes "map_of kvs key = Some (JArr xs)" "length xs \<noteq> 2" "length xs \<noteq> 4"
  shows "normalize_field key (JObj kvs) = Inl ValueError"
proof -
  have "(case xs of [] \<Rightarrow> Inl ValueError | [a] \<Rightarrow> Inl ValueError
         | [point_x, point_y] \<Rightarrow> Inr (point_x, point_y)
         | [x1, y1, x2, y2] \<Rightarrow> bind (center x1 x2) (\<lambda>point_x. bind (center y1 y2) (\<lambda>point_y. Inr (point_x, point_y)))
         | _ \<Rightarrow> Inl ValueError) = Inl ValueError"
    using assms(2,3) by (auto split: list.splits)
  then show ?thesis using assms(1)
    by (simp add: normalize_field_def py_in_dict collapse_def)
qed

lemma normalize_field_absent:
  "map_of kvs key = None \<Longrightarrow> normalize_field key (JObj kvs) = Inr (JObj kvs)"
  by (simp add: normalize_field_def py_in_dict)

text \<open>
  Claim C7. A coordinate of four values is collapsed to its centre
  \<open>((x1 + x2) / 2, (y1 + y2) / 2)\<close> before the division by the scale: the field is
  normalized as the field holding the centre pair is, so that \<^verbatim>\<open>[10,20,30,40]\<close> and
  \<^verbatim>\<open>[20,30]\<close> give the same unit pair; a coordinate list whose length is neither 2 nor
  4 is rejected with \<^verbatim>\<open>ValueError\<close>.
\<close>

theorem bounding_box_collapse:
  "(map_of kvs key = Some (JArr [JNum x1, JNum y1, JNum x2, JNum y2]) \<longrightarrow>
      normalize_field key (JObj kvs) =
      normalize_field key (JObj (dict_set kvs key (JArr [JNum ((x1 + x2) / 2), JNum ((y1 + y2) / 2)]))))
   \<and> normalize_action (JObj [(ACTION, JStr CLICK_ACTION), (COORDINATE, JArr [JNum 10, JNum 20, JNum 30, JNum 40])])
       = Inr (JObj [(ACTION, JStr CLICK_ACTION), (COORDINATE, JArr [JNum (20 / 999), JNum (30 / 999)])])
   \<and> normalize_action (JObj [(ACTION, JStr CLICK_ACTION), (COORDINATE, JArr [JNum 20, JNum 30])])
       = Inr (JObj [(ACTION, JStr CLICK_ACTION), (COORDINATE, JArr [JNum (20 / 999), JNum (30 / 999)])])
   \<and> (map_of kvs' key = Some (JArr xs) \<and> length xs \<noteq> 2 \<and> length xs \<noteq> 4 \<longrightarrow>
      normalize_field key (JObj kvs') = Inl ValueError)"
proof (intro conjI impI)
  assume a: "map_of kvs key = Some (JArr [JNum x1, JNum y1, JNum x2, JNum y2])"
  have "map_of (dict_set kvs key (JArr [JNum ((x1 + x2) / 2), JNum ((y1 + y2) / 2)])) key
        = Some (JArr [JNum ((x1 + x2) / 2), JNum ((y1 + y2) / 2)])"
    by (simp add: map_of_dict_set)
  from normalize_field_pair [OF this] normalize_field_box [OF a]
  show "normalize_field key (JObj kvs) =
      normalize_field key (JObj (dict_set kvs key (JArr [JNum ((x1 + x2) / 2), JNum ((y1 + y2) / 2)])))"
    by (simp add: dict_set_twice)
next
  have ne: "COORDINATE \<noteq> ACTION" "START_COORDINATE \<noteq> ACTION" "END_COORDINATE \<noteq> ACTION"
      "START_COORDINATE \<noteq> COORDINATE" "END_COORDINATE \<noteq> COORDINATE"
    by (simp_all add: COORDINATE_def ACTION_def START_COORDINATE_def END_COORDINATE_def py_def)
  show "normalize_action (JObj [(ACTION, JStr CLICK_ACTION), (COORDINATE, JArr [JNum 10, JNum 20, JNum 30, JNum 40])])
       = Inr (JObj [(ACTION, JStr CLICK_ACTION), (COORDINATE, JArr [JNum (20 / 999), JNum (30 / 999)])])"
    using ne by (simp add: normalize_action_def normalize_field_box normalize_field_absent dict_set_def
        SCALE_FACTOR_def)
  show "normalize_action (JObj [(ACTION, JStr CLICK_ACTION), (COORDINATE, JArr [JNum 20, JNum 30])])
       = Inr (JObj [(ACTION, JStr CLICK_ACTION), (COORDINATE, JArr [JNum (20 / 999), JNum (30 / 999)])])"
    using ne by (simp add: normalize_action_def normalize_field_pair normalize_field_absent dict_set_def
        SCALE_FACTOR_def)
next
  assume "map_of kvs' key = Some (JArr xs) \<and> length xs \<noteq> 2 \<and> length xs \<noteq> 4"
  then show "normalize_field key (JObj kvs') = Inl ValueError"
    by (simp add: normalize_field_bad_length)
qed

theorem bounding_box_collapse_witness:
  "normalize_field COORDINATE (JObj [(COORDINATE, JArr [JNum 10, JNum 20, JNum 30, JNum 40])])
     = normalize_field COORDINATE (JObj [(COORDINATE, JArr [JNum 20, JNum 30])])
   \<and> normalize_field COORDINATE (JObj [(COORDINATE, JArr [JNum 10, JNum 20, JNum 30])]) = Inl ValueError"
  using bounding_box_collapse [of "[(COORDINATE, JArr [JNum 10, JNum 20, JNum 30, JNum 40])]" COORDINATE 10 20 30 40
     "[(COORDINATE, JArr [JNum 10, JNum 20, JNum 30])]" "[JNum 10, JNum 20, JNum 30]"]
  by (simp add: dict_set_def)




lemma py_int_ge_2:
  assumes "2 / SCALE_FACTOR \<le> x"
  shows "1 < py_int (x * SCALE_FACTOR)"
proof -
  from assms have "2 \<le> x * 999" by (simp add: SCALE_FACTOR_def field_simps)
  then have "2 \<le> \<lfloor>x * 999\<rfloor>" by linarith
  moreover from \<open>2 \<le> x * 999\<close> have "0 \<le> x * 999" by linarith
  ultimately show ?thesis by (simp add: py_int_def SCALE_FACTOR_def)
qed





















section \<open>Properties of the duplicate guard\<close>

lemma py_eq_JStr [simp]: "py_eq v (JStr s) \<longleftrightarrow> v = JStr s"
  by (cases v) auto

lemma py_eq_JStr_left [simp]: "py_eq (JStr s) v \<longleftrightarrow> v = JStr s"
  by (cases v) auto

lemma dict_get_Some: "map_of kvs k = Some v \<Longrightarrow> dict_get kvs k d = v"
  by (simp add: dict_get_def)

lemma action_names_distinct:
  "CLICK_ACTION \<noteq> TYPE_ACTION" "CLICK_ACTION \<noteq> LAUNCH_ACTION" "TYPE_ACTION \<noteq> LAUNCH_ACTION"
  "CLICK_ACTION \<noteq> []" "TYPE_ACTION \<noteq> []" "LAUNCH_ACTION \<noteq> []"
  "py ''wait'' \<noteq> CLICK_ACTION" "py ''wait'' \<noteq> TYPE_ACTION" "py ''wait'' \<noteq> LAUNCH_ACTION"
  by (simp_all add: CLICK_ACTION_def TYPE_ACTION_def LAUNCH_ACTION_def py_def)

lemma is_duplicate_dicts:
  "is_duplicate str_lower (JObj lk) (JObj ak) =
     (if lk = [] \<or> \<not> py_eq (dict_get ak ACTION (JStr [])) (dict_get lk ACTION (JStr [])) then Inr False
      else if dict_get ak ACTION (JStr []) = JStr CLICK_ACTION then click_duplicate (JObj lk) (JObj ak)
      else if dict_get ak ACTION (JStr []) = JStr TYPE_ACTION then type_duplicate (JObj lk) (JObj ak)
      else if dict_get ak ACTION (JStr []) = JStr LAUNCH_ACTION then launch_duplicate str_lower (JObj lk) (JObj ak)
      else Inr False)"
  by (simp add: is_duplicate_def)

lemma click_duplicate_pairs:
  assumes "dict_get lk COORDINATE (JArr []) = JArr [JNum lx, JNum ly]"
    and "dict_get ak COORDINATE (JArr []) = JArr [JNum cx, JNum cy]"
  shows "click_duplicate (JObj lk) (JObj ak) = Inr (sqrt ((lx - cx)\<^sup>2 + (ly - cy)\<^sup>2) < 0.03)"
  using assms by (simp add: click_duplicate_def py_sub_def)




section \<open>Properties of the prediction cycle\<close>

lemma retry_fail_prefix:
  "\<forall>j<k. isl (attempt str_lower h (llm (i + j))) \<Longrightarrow> retry str_lower (k + n) i llm h = retry str_lower n (i + k) llm h"
proof (induction k arbitrary: i)
  case 0
  then show ?case by simp
next
  case (Suc k)
  from Suc.prems have "isl (attempt str_lower h (llm (i + 0)))" by blast
  then obtain e where e: "attempt str_lower h (llm i) = Inl e" by (cases "attempt str_lower h (llm i)") auto
  have "\<forall>j<k. isl (attempt str_lower h (llm (Suc i + j)))"
  proof (intro allI impI)
    fix j assume "j < k"
    then have "Suc j < Suc k" by simp
    with Suc.prems have "isl (attempt str_lower h (llm (i + Suc j)))" by blast
    then show "isl (attempt str_lower h (llm (Suc i + j)))" by simp
  qed
  then have "retry str_lower (k + n) (Suc i) llm h = retry str_lower n (Suc i + k) llm h" by (rule Suc.IH)
  moreover have "retry str_lower (Suc k + n) i llm h = retry str_lower (k + n) (Suc i) llm h"
    by (simp add: e)
  ultimately show ?case by simp
qed


lemma retry_fail_prefix0:
  assumes "\<forall>j<k. isl (attempt str_lower h (llm j))"
  shows "retry str_lower (k + n) 0 llm h = retry str_lower n k llm h"
proof -
  have "\<forall>j<k. isl (attempt str_lower h (llm (0 + j)))"
  proof (intro allI impI)
    fix j assume "j < k"
    with assms have "isl (attempt str_lower h (llm j))" by blast
    then show "isl (attempt str_lower h (llm (0 + j)))" by (simp only: add_0)
  qed
  then have "retry str_lower (k + n) 0 llm h = retry str_lower n (0 + k) llm h" by (rule retry_fail_prefix)
  then show ?thesis by (simp only: add_0)
qed

lemma retry_all_fail:
  assumes "\<forall>j<n. isl (attempt str_lower h (llm j))"
  shows "retry str_lower n 0 llm h = None"
proof -
  from assms have "retry str_lower (n + 0) 0 llm h = retry str_lower 0 n llm h" by (rule retry_fail_prefix0)
  then show ?thesis by (simp only: add_0_right retry.simps(1))
qed

lemma retry_first_success:
  assumes "k < n" "\<forall>j<k. isl (attempt str_lower h (llm j))" "attempt str_lower h (llm k) = Inr out"
  shows "retry str_lower n 0 llm h = Some out"
proof -
  from assms(1) obtain m where "n = Suc (k + m)" using less_imp_Suc_add by blast
  then have n: "n = k + Suc m" by simp
  from assms(2) have "retry str_lower (k + Suc m) 0 llm h = retry str_lower (Suc m) k llm h" by (rule retry_fail_prefix0)
  also have "\<dots> = Some out" by (simp only: retry.simps(2) assms(3) sum.case)
  finally show ?thesis unfolding n .
qed

lemma sqrt_less_threshold: "sqrt x < 0.03 \<longleftrightarrow> x < 0.0009"
proof -
  have "sqrt ((0.03)\<^sup>2) = (0.03 :: real)" by (simp only: real_sqrt_abs) simp
  then have "sqrt x < 0.03 \<longleftrightarrow> sqrt x < sqrt ((0.03)\<^sup>2)" by (simp only:)
  also have "\<dots> \<longleftrightarrow> x < (0.03)\<^sup>2" by (rule real_sqrt_less_iff)
  also have "((0.03 :: real)\<^sup>2) = 0.0009" by (simp add: power2_eq_square)
  finally show ?thesis .
qed

lemma attempt_click:
  assumes "h \<noteq> []" "action (last h) = JObj lk"
    and "dict_get lk ACTION (JStr []) = JStr CLICK_ACTION"
    and "dict_get lk COORDINATE (JArr []) = JArr [JNum lx, JNum ly]"
    and "parse_action_to_structure_output (strip content) = Inr (thinking, JObj ak)"
    and "dict_get ak ACTION (JStr []) = JStr CLICK_ACTION"
    and "dict_get ak COORDINATE (JArr []) = JArr [JNum cx, JNum cy]"
  shows "attempt str_lower h (Some content) =
     Inr (if sqrt ((lx - cx)\<^sup>2 + (ly - cy)\<^sup>2) < 0.03 then Blocked thinking
          else Passed (strip content) (JObj ak) thinking)"
proof -
  from assms(3) have "lk \<noteq> []" using action_names_distinct by (auto simp: dict_get_def)
  with assms(3,6) have "is_duplicate str_lower (JObj lk) (JObj ak) = click_duplicate (JObj lk) (JObj ak)"
    by (simp add: is_duplicate_dicts)
  with click_duplicate_pairs [OF assms(4,7)]
  have "is_duplicate str_lower (action (last h)) (JObj ak) = Inr (sqrt ((lx - cx)\<^sup>2 + (ly - cy)\<^sup>2) < 0.03)"
    by (simp add: assms(2))
  with assms(1,5) show ?thesis by (simp add: attempt_def)
qed

lemma predict_after_click:
  assumes "steps mem \<noteq> []" and "action (last (steps mem)) = JObj lk"
    and "dict_get lk ACTION (JStr []) = JStr CLICK_ACTION"
    and "dict_get lk COORDINATE (JArr []) = JArr [JNum lx, JNum ly]"
    and "k < max_retries" and "\<forall>j<k. isl (attempt str_lower (steps mem) (llm j))"
    and "llm k = Some content"
    and "parse_action_to_structure_output (strip content) = Inr (thinking, JObj ak)"
    and "dict_get ak ACTION (JStr []) = JStr CLICK_ACTION"
    and "dict_get ak COORDINATE (JArr []) = JArr [JNum cx, JNum cy]"
  shows "predict str_lower mem instruction execution_result llm =
     (if sqrt ((lx - cx)\<^sup>2 + (ly - cy)\<^sup>2) < 0.03
      then (mem\<lparr>task_goal := (if goal_unset (task_goal mem) then Some instruction else task_goal mem),
                steps := steps mem @ [new_step mem (blocked_prediction thinking) WAIT_ACTION thinking execution_result]\<rparr>,
            (blocked_prediction thinking, WAIT_ACTION))
      else (mem\<lparr>task_goal := (if goal_unset (task_goal mem) then Some instruction else task_goal mem),
                steps := steps mem @ [new_step mem (strip content) (JObj ak) thinking execution_result]\<rparr>,
            (strip content, JObj ak)))"
proof -
  let ?d = "sqrt ((lx - cx)\<^sup>2 + (ly - cy)\<^sup>2) < 0.03"
  from attempt_click [OF assms(1,2,3,4,8,9,10)] assms(7)
  have "attempt str_lower (steps mem) (llm k) = Inr (if ?d then Blocked thinking else Passed (strip content) (JObj ak) thinking)"
    by simp
  from retry_first_success [OF assms(5,6) this]
  have r: "retry str_lower max_retries 0 llm (steps mem) =
    Some (if ?d then Blocked thinking else Passed (strip content) (JObj ak) thinking)" .
  show ?thesis
  proof (cases ?d)
    case True
    with r show ?thesis by (simp add: predict_def new_step_def)
  next
    case False
    with r show ?thesis by (simp add: predict_def new_step_def)
  qed
qed

text \<open>
  Claim C5, amended. When the last step holds a click at \<open>(lx, ly)\<close> and the first
  attempt that parses gives a click at \<open>(cx, cy)\<close>, the cycle succeeds either way. If
  the Euclidean distance of the two pairs is below 0.03, the appended step and the
  returned pair hold the action \<^verbatim>\<open>{"action": "wait", "duration": 2.0}\<close>, and the
  prediction text, returned and stored, is the reasoning between \<^verbatim>\<open><thinking>\<close> and
  \<^verbatim>\<open></thinking>\<close> followed by a space, the sign U+26D4, a space and the seven
  characters of the note; the reasoning stored with the step is the reasoning as it
  was parsed, without the note. If the distance is 0.03 or more, the step and the
  pair hold the parsed action and the text of the model.
\<close>

theorem click_duplicate_substitution:
  assumes "steps mem \<noteq> []" and "action (last (steps mem)) = JObj lk"
    and "dict_get lk (py ''action'') (JStr []) = JStr (py ''click'')"
    and "dict_get lk (py ''coordinate'') (JArr []) = JArr [JNum lx, JNum ly]"
    and "k < 3" and "\<forall>j<k. isl (attempt str_lower (steps mem) (llm j))"
    and "llm k = Some content"
    and "parse_action_to_structure_output (strip content) = Inr (thinking, JObj ak)"
    and "dict_get ak (py ''action'') (JStr []) = JStr (py ''click'')"
    and "dict_get ak (py ''coordinate'') (JArr []) = JArr [JNum cx, JNum cy]"
  shows "predict str_lower mem instruction execution_result llm =
     (if sqrt ((lx - cx)\<^sup>2 + (ly - cy)\<^sup>2) < 0.03
      then (mem\<lparr>task_goal := (if goal_unset (task_goal mem) then Some instruction else task_goal mem),
                steps := steps mem @
                  [\<lparr> prediction = py ''<thinking>'' @ (case thinking of None \<Rightarrow> py ''None'' | Some t \<Rightarrow> t)
                         @ py ''</thinking>'' @ [32, 9940, 32, 37325, 22797, 21160, 20316, 34987, 38459, 27490],
                     action = JObj [(py ''action'', JStr (py ''wait'')), (py ''duration'', JNum 2)],
                     conclusion = execution_result,
                     thought = thinking,
                     step_index = length (steps mem),
                     structured_action = JObj [(py ''action_json'',
                       JObj [(py ''action'', JStr (py ''wait'')), (py ''duration'', JNum 2)])] \<rparr>]\<rparr>,
            (py ''<thinking>'' @ (case thinking of None \<Rightarrow> py ''None'' | Some t \<Rightarrow> t)
               @ py ''</thinking>'' @ [32, 9940, 32, 37325, 22797, 21160, 20316, 34987, 38459, 27490],
             JObj [(py ''action'', JStr (py ''wait'')), (py ''duration'', JNum 2)]))
      else (mem\<lparr>task_goal := (if goal_unset (task_goal mem) then Some instruction else task_goal mem),
                steps := steps mem @
                  [\<lparr> prediction = strip content,
                     action = JObj ak,
                     conclusion = execution_result,
                     thought = thinking,
                     step_index = length (steps mem),
                     structured_action = JObj [(py ''action_json'', JObj ak)] \<rparr>]\<rparr>,
            (strip content, JObj ak)))"
  using assms
  by (rule predict_after_click [unfolded new_step_def blocked_prediction_def WAIT_ACTION_def
        THINKING_OPEN_def THINKING_CLOSE_def ACTION_def CLICK_ACTION_def COORDINATE_def
        max_retries_def])

text \<open>
  Claim C1, amended. When all three attempts of a cycle fail, \<^verbatim>\<open>predict\<close> returns
  the pair of \<^verbatim>\<open>"llm client error"\<close> and \<^verbatim>\<open>{"action": None}\<close> and appends no step; the
  task goal, which is written before the first attempt, is the instruction if it was
  unset and is unchanged otherwise.
\<close>

theorem retry_exhaustion:
  assumes "\<forall>j<max_retries. isl (attempt str_lower (steps mem) (llm j))"
  shows "predict str_lower mem instruction execution_result llm =
      (mem\<lparr>task_goal := (if goal_unset (task_goal mem) then Some instruction else task_goal mem)\<rparr>,
       (py ''llm client error'', JObj [(py ''action'', JNull)]))
    \<and> steps (fst (predict str_lower mem instruction execution_result llm)) = steps mem"
proof -
  from assms have "retry str_lower max_retries 0 llm (steps mem) = None" by (rule retry_all_fail)
  then show ?thesis by (simp add: predict_def FAILURE_def ACTION_def)
qed

lemma attempt_no_reply: "attempt str_lower h (no_reply j) = Inl LLMError"
  by (simp add: attempt_def no_reply_def)

text \<open>The theorem at the empty trajectory and the endpoint that never answers.\<close>

theorem retry_exhaustion_witness:
  "predict ascii_lower empty_memory (py ''go'') [] no_reply =
      (empty_memory\<lparr>task_goal := (if goal_unset (task_goal empty_memory) then Some (py ''go'') else task_goal empty_memory)\<rparr>,
       (py ''llm client error'', JObj [(py ''action'', JNull)]))
    \<and> steps (fst (predict ascii_lower empty_memory (py ''go'') [] no_reply)) = steps empty_memory"
  using retry_exhaustion [where str_lower = ascii_lower and mem = empty_memory and llm = no_reply
      and instruction = "py ''go''" and execution_result = "[]"] by (simp add: attempt_no_reply)

text \<open>
  Claim C1 as stated fails at the empty trajectory with an unset goal: the three
  attempts fail and the trajectory is not what it was, its goal is now the
  instruction.
\<close>

theorem retry_exhaustion_counterexample:
  "isl (attempt ascii_lower (steps empty_memory) (no_reply 0)) \<and> isl (attempt ascii_lower (steps empty_memory) (no_reply 1))
   \<and> isl (attempt ascii_lower (steps empty_memory) (no_reply 2))
   \<and> task_goal empty_memory = None
   \<and> task_goal (fst (predict ascii_lower empty_memory (py ''go'') [] no_reply)) = Some (py ''go'')
   \<and> fst (predict ascii_lower empty_memory (py ''go'') [] no_reply) \<noteq> empty_memory"
proof -
  have "retry ascii_lower max_retries 0 no_reply (steps empty_memory) = None"
    by (rule retry_all_fail) (simp add: attempt_no_reply)
  then show ?thesis
    by (simp add: attempt_no_reply predict_def empty_memory_def goal_unset_def)
qed

lemma click_reply_parsed:
  "parse_action_to_structure_output (strip click_reply) =
     Inr (Some (py ''again''),
          JObj [(ACTION, JStr CLICK_ACTION), (COORDINATE, JArr [JNum (51 / 100), JNum (51 / 100)])])"
  by (simp add: click_reply_def parser_eval tag_eval key_eval json_eval)

lemma far_reply_parsed:
  "parse_action_to_structure_output (strip far_reply) =
     Inr (Some (py ''next''),
          JObj [(ACTION, JStr CLICK_ACTION), (COORDINATE, JArr [JNum (3 / 5), JNum (3 / 5)])])"
  by (simp add: far_reply_def parser_eval tag_eval key_eval json_eval)

lemma key_names_distinct:
  "COORDINATE \<noteq> ACTION" "ACTION \<noteq> COORDINATE" "TEXT \<noteq> ACTION" "ACTION \<noteq> TEXT"
  by (simp_all add: key_eval)

lemma sample_click_facts:
  "steps click_memory \<noteq> []"
  "action (last (steps click_memory)) =
     JObj [(ACTION, JStr CLICK_ACTION), (COORDINATE, JArr [JNum (1 / 2), JNum (1 / 2)])]"
  "dict_get [(ACTION, JStr CLICK_ACTION), (COORDINATE, JArr [JNum x, JNum y])] ACTION (JStr []) = JStr CLICK_ACTION"
  "dict_get [(ACTION, JStr CLICK_ACTION), (COORDINATE, JArr [JNum x, JNum y])] COORDINATE (JArr [])
     = JArr [JNum x, JNum y]"
  "0 < max_retries" "\<forall>j<0::nat. isl (attempt str_lower (steps click_memory) (llm j))"
  "always text 0 = Some text"
  by (simp_all add: click_memory_def click_step_def dict_get_def key_names_distinct max_retries_def
      always_def)

lemma sample_click_blocked:
  "retry ascii_lower max_retries 0 (always click_reply) (steps click_memory) = Some (Blocked (Some (py ''again'')))"
proof -
  have near: "sqrt ((1 / 2 - 51 / 100)\<^sup>2 + (1 / 2 - 51 / 100)\<^sup>2) < 0.03"
    by (simp only: sqrt_less_threshold) (simp add: power2_eq_square)
  from attempt_click [OF sample_click_facts(1,2) sample_click_facts(3,4) [of "1 / 2" "1 / 2"]
      click_reply_parsed sample_click_facts(3,4) [of "51 / 100" "51 / 100"]] near
  have "attempt ascii_lower (steps click_memory) (Some click_reply) = Inr (Blocked (Some (py ''again'')))"
    by (simp only: if_True)
  then have "attempt ascii_lower (steps click_memory) (always click_reply 0) = Inr (Blocked (Some (py ''again'')))"
    by (simp only: always_def)
  from retry_first_success [OF sample_click_facts(5) sample_click_facts(6) [where llm = "always click_reply" and str_lower = ascii_lower] this]
  show ?thesis .
qed

text \<open>The theorem after a click at \<open>(0.5, 0.5)\<close>: a click at \<open>(0.51, 0.51)\<close> is replaced,
  a click at \<open>(0.6, 0.6)\<close> is not.\<close>

theorem click_duplicate_substitution_witness:
  "predict ascii_lower click_memory (py ''go'') [] (always click_reply) =
     (click_memory\<lparr>steps := [click_step,
        \<lparr> prediction = py ''<thinking>again</thinking>'' @ [32, 9940, 32, 37325, 22797, 21160, 20316, 34987, 38459, 27490],
          action = JObj [(py ''action'', JStr (py ''wait'')), (py ''duration'', JNum 2)],
          conclusion = [],
          thought = Some (py ''again''),
          step_index = 1,
          structured_action = JObj [(py ''action_json'',
            JObj [(py ''action'', JStr (py ''wait'')), (py ''duration'', JNum 2)])] \<rparr>]\<rparr>,
      (py ''<thinking>again</thinking>'' @ [32, 9940, 32, 37325, 22797, 21160, 20316, 34987, 38459, 27490],
       JObj [(py ''action'', JStr (py ''wait'')), (py ''duration'', JNum 2)]))
   \<and> predict ascii_lower click_memory (py ''go'') [] (always far_reply) =
     (click_memory\<lparr>steps := [click_step,
        \<lparr> prediction = far_reply,
          action = JObj [(py ''action'', JStr (py ''click'')), (py ''coordinate'', JArr [JNum (3 / 5), JNum (3 / 5)])],
          conclusion = [],
          thought = Some (py ''next''),
          step_index = 1,
          structured_action = JObj [(py ''action_json'',
            JObj [(py ''action'', JStr (py ''click'')), (py ''coordinate'', JArr [JNum (3 / 5), JNum (3 / 5)])])] \<rparr>]\<rparr>,
      (far_reply,
       JObj [(py ''action'', JStr (py ''click'')), (py ''coordinate'', JArr [JNum (3 / 5), JNum (3 / 5)])]))"
proof -
  have near: "sqrt ((1 / 2 - 51 / 100)\<^sup>2 + (1 / 2 - 51 / 100)\<^sup>2) < 0.03"
    by (simp only: sqrt_less_threshold) (simp add: power2_eq_square)
  have far: "\<not> sqrt ((1 / 2 - 3 / 5)\<^sup>2 + (1 / 2 - 3 / 5)\<^sup>2) < 0.03"
    by (simp only: sqrt_less_threshold) (simp add: power2_eq_square)
  note facts = sample_click_facts [unfolded ACTION_def CLICK_ACTION_def COORDINATE_def max_retries_def]
  have three: "(0::nat) < 3" by simp
  have st: "strip far_reply = far_reply"
    by (simp add: far_reply_def strip_def strip_chars_def is_space_def py_def)
  from click_duplicate_substitution [where mem = click_memory and k = 0 and llm = "always click_reply"
      and content = click_reply and instruction = "py ''go''" and execution_result = "[]"
      and str_lower = ascii_lower,
      OF facts(1,2) facts(3,4) [of "1 / 2" "1 / 2"] three
         facts(6) [where llm = "always click_reply" and str_lower = ascii_lower] facts(7) [of click_reply]
         click_reply_parsed [unfolded ACTION_def CLICK_ACTION_def COORDINATE_def]
         facts(3,4) [of "51 / 100" "51 / 100"]] near
  have r1: "predict ascii_lower click_memory (py ''go'') [] (always click_reply) =
     (click_memory\<lparr>task_goal := (if goal_unset (task_goal click_memory) then Some (py ''go'')
                                     else task_goal click_memory),
        steps := steps click_memory @
        [\<lparr> prediction = py ''<thinking>'' @ (case Some (py ''again'') of None \<Rightarrow> py ''None'' | Some t \<Rightarrow> t)
             @ py ''</thinking>'' @ [32, 9940, 32, 37325, 22797, 21160, 20316, 34987, 38459, 27490],
          action = JObj [(py ''action'', JStr (py ''wait'')), (py ''duration'', JNum 2)],
          conclusion = [],
          thought = Some (py ''again''),
          step_index = length (steps click_memory),
          structured_action = JObj [(py ''action_json'',
            JObj [(py ''action'', JStr (py ''wait'')), (py ''duration'', JNum 2)])] \<rparr>]\<rparr>,
      (py ''<thinking>'' @ (case Some (py ''again'') of None \<Rightarrow> py ''None'' | Some t \<Rightarrow> t)
         @ py ''</thinking>'' @ [32, 9940, 32, 37325, 22797, 21160, 20316, 34987, 38459, 27490],
       JObj [(py ''action'', JStr (py ''wait'')), (py ''duration'', JNum 2)]))"
    by (simp only: if_True)
  from click_duplicate_substitution [where mem = click_memory and k = 0 and llm = "always far_reply"
      and content = far_reply and instruction = "py ''go''" and execution_result = "[]"
      and str_lower = ascii_lower,
      OF facts(1,2) facts(3,4) [of "1 / 2" "1 / 2"] three
         facts(6) [where llm = "always far_reply" and str_lower = ascii_lower] facts(7) [of far_reply]
         far_reply_parsed [unfolded ACTION_def CLICK_ACTION_def COORDINATE_def]
         facts(3,4) [of "3 / 5" "3 / 5"]] far
  have r2: "predict ascii_lower click_memory (py ''go'') [] (always far_reply) =
     (click_memory\<lparr>task_goal := (if goal_unset (task_goal click_memory) then Some (py ''go'')
                                     else task_goal click_memory),
        steps := steps click_memory @
        [\<lparr> prediction = strip far_reply,
          action = JObj [(py ''action'', JStr (py ''click'')), (py ''coordinate'', JArr [JNum (3 / 5), JNum (3 / 5)])],
          conclusion = [],
          thought = Some (py ''next''),
          step_index = length (steps click_memory),
          structured_action = JObj [(py ''action_json'',
            JObj [(py ''action'', JStr (py ''click'')), (py ''coordinate'', JArr [JNum (3 / 5), JNum (3 / 5)])])] \<rparr>]\<rparr>,
      (strip far_reply,
       JObj [(py ''action'', JStr (py ''click'')), (py ''coordinate'', JArr [JNum (3 / 5), JNum (3 / 5)])]))"
    by (simp only: if_False)
  from r1 r2 show ?thesis
    by (simp add: click_memory_def goal_unset_def st py_def)
qed

text \<open>
  Claim C5 as stated fails in what it says of the reasoning text: after the click at
  \<open>(0.51, 0.51)\<close> has been replaced by the wait action, the reasoning stored with the
  step is \<^verbatim>\<open>again\<close>, the reasoning parsed from the reply, with no note added to it.
\<close>

theorem click_duplicate_substitution_counterexample:
  "parse_action_to_structure_output (strip click_reply) =
     Inr (Some (py ''again''),
          JObj [(py ''action'', JStr (py ''click'')), (py ''coordinate'', JArr [JNum (51 / 100), JNum (51 / 100)])])
   \<and> action (last (steps (fst (predict ascii_lower click_memory (py ''go'') [] (always click_reply)))))
       = JObj [(py ''action'', JStr (py ''wait'')), (py ''duration'', JNum 2)]
   \<and> thought (last (steps (fst (predict ascii_lower click_memory (py ''go'') [] (always click_reply)))))
       = Some (py ''again'')"
proof -
  have g: "\<not> goal_unset (task_goal click_memory)"
    by (simp add: click_memory_def goal_unset_def py_def)
  have "predict ascii_lower click_memory (py ''go'') [] (always click_reply) =
      (click_memory\<lparr>steps := steps click_memory @
          [new_step click_memory (blocked_prediction (Some (py ''again''))) WAIT_ACTION (Some (py ''again'')) []]\<rparr>,
       (blocked_prediction (Some (py ''again'')), WAIT_ACTION))"
    by (simp add: predict_def sample_click_blocked g)
  then show ?thesis
    using click_reply_parsed
    by (simp add: new_step_def WAIT_ACTION_def ACTION_def CLICK_ACTION_def COORDINATE_def)
qed












section \<open>Properties of the response parser\<close>

lemma prefix_drop: "prefix p s \<Longrightarrow> p @ drop (length p) s = s"
  by (auto simp: prefix_def)

lemma find_sub_decomp: "find_sub p s = Some (a, b) \<Longrightarrow> s = a @ p @ b"
proof (induction s arbitrary: a)
  case Nil
  then show ?case by (simp split: if_splits)
next
  case (Cons x xs)
  show ?case
  proof (cases "prefix p (x # xs)")
    case True
    with Cons.prems have "a = []" "b = drop (length p) (x # xs)" by auto
    with prefix_drop [OF True] show ?thesis by simp
  next
    case False
    with Cons.prems obtain a' where "find_sub p xs = Some (a', b)" "a = x # a'"
      by (auto split: option.splits)
    with Cons.IH [of a'] show ?thesis by simp
  qed
qed

lemma find_sub_append: "find_sub p s = Some (a, b) \<Longrightarrow> find_sub p (s @ z) = Some (a, b @ z)"
proof (induction s arbitrary: a)
  case Nil
  then show ?case by (cases z) (simp_all split: if_splits)
next
  case (Cons x xs)
  show ?case
  proof (cases "prefix p (x # xs)")
    case True
    with Cons.prems have ab: "a = []" "b = drop (length p) (x # xs)" by auto
    from True have pr: "prefix p (x # (xs @ z))" by (metis append_Cons prefix_prefix)
    from True have "length p \<le> length (x # xs)" by (rule prefix_length_le)
    then have "drop (length p) (x # (xs @ z)) = drop (length p) (x # xs) @ z"
      by (metis append_Cons drop_append diff_is_0_eq drop0)
    with pr ab show ?thesis by simp
  next
    case False
    with Cons.prems obtain a' where a': "find_sub p xs = Some (a', b)" "a = x # a'"
      by (auto split: option.splits)
    from find_sub_decomp [OF a'(1)] have "length p \<le> length (x # xs)" by simp
    with False have "\<not> prefix p (x # (xs @ z))"
      by (metis append_Cons prefix_append prefix_length_prefix prefix_order.order_refl prefixI)
    with a' Cons.IH [of a'] show ?thesis by simp
  qed
qed

lemma prefix_straddle: "prefix t (xs @ m # ys) \<Longrightarrow> \<not> prefix t xs \<Longrightarrow> m \<in> set t"
proof -
  assume a: "prefix t (xs @ m # ys)" and b: "\<not> prefix t xs"
  from a b obtain us where us: "t = xs @ us" "prefix us (m # ys)" by (auto simp: prefix_append)
  with b have "us \<noteq> []" by auto
  with us(2) have "hd us = m" by (cases us) auto
  with \<open>us \<noteq> []\<close> us(1) show ?thesis by (cases us) auto
qed

lemma find_sub_first:
  assumes "p \<noteq> []" "hd p \<notin> set (tl p)" "find_sub p a = None"
  shows "find_sub p (a @ p @ b) = Some (a, b)"
  using assms(3)
proof (induction a)
  case Nil
  from assms(1) obtain c t where p: "p = c # t" by (cases p) auto
  then show ?case by simp
next
  case (Cons x a)
  from Cons.prems have np: "\<not> prefix p (x # a)" and no: "find_sub p a = None"
    by (auto split: if_splits)
  from assms(1) obtain c t where p: "p = c # t" by (cases p) auto
  have "\<not> prefix p (x # (a @ p @ b))"
  proof
    assume pr: "prefix p (x # (a @ p @ b))"
    from pr p have xc: "x = c" by simp
    from pr p have pt: "prefix t (a @ c # (t @ b))" by auto
    from np p xc have "\<not> prefix t a" by simp
    with pt have "c \<in> set t" by (rule prefix_straddle)
    with assms(2) p show False by simp
  qed
  with Cons.IH [OF no] show ?case by simp
qed

lemma is_substring_find_sub: "is_substring p s \<longleftrightarrow> find_sub p s \<noteq> None"
  by (induction s) auto

lemma is_substring_middle: "is_substring p (a @ p @ b)"
proof (induction a)
  case Nil
  have "prefix p (p @ b)" by simp
  then show ?case by (cases "p @ b") auto
next
  case (Cons x a)
  then show ?case by simp
qed

text \<open>The markers of the action block begin with the only \<open><\<close> they hold.\<close>

lemma marker_shape:
  "THINKING_OPEN \<noteq> []" "hd THINKING_OPEN \<notin> set (tl THINKING_OPEN)"
  "THINKING_CLOSE \<noteq> []" "hd THINKING_CLOSE \<notin> set (tl THINKING_CLOSE)"
  "INVOKE_OPEN = 60 # tl INVOKE_OPEN" "60 \<notin> set (tl INVOKE_OPEN)"
  "INVOKE_CLOSE = 60 # tl INVOKE_CLOSE" "60 \<notin> set (tl INVOKE_CLOSE)"
  "\<not> prefix INVOKE_CLOSE (INVOKE_OPEN @ y)"
  by (simp_all add: tag_eval)

lemma find_open_None: "find_open s = None \<longleftrightarrow> \<not> is_substring INVOKE_OPEN s \<and> \<not> is_substring INVOKE_CLOSE s"
  by (induction s) (auto simp: tag_eval)

lemma find_open_at_marker:
  "find_open (INVOKE_OPEN @ y) = Some y" "find_open (INVOKE_CLOSE @ y) = Some y"
  by (simp_all add: tag_eval)

lemma find_open_marker:
  assumes "find_open s = None" and "M = INVOKE_OPEN \<or> M = INVOKE_CLOSE"
  shows "find_open (s @ M @ y) = Some y"
  using assms(1)
proof (induction s)
  case Nil
  from assms(2) show ?case by (auto simp: find_open_at_marker)
next
  case (Cons x s)
  from Cons.prems have np: "\<not> prefix INVOKE_CLOSE (x # s)" "\<not> prefix INVOKE_OPEN (x # s)"
    and no: "find_open s = None"
    by (auto split: if_splits)
  have straddle: "\<not> prefix N (x # (s @ 60 # z))"
    if "N = 60 # tl N" "60 \<notin> set (tl N)" "\<not> prefix N (x # s)" for N z
  proof
    assume pr: "prefix N (x # (s @ 60 # z))"
    from pr that(1) have "x = 60" by (metis Cons_prefix_Cons)
    from pr that(1) have pt: "prefix (tl N) (s @ 60 # z)" by (metis Cons_prefix_Cons)
    from that(1,3) \<open>x = 60\<close> have "\<not> prefix (tl N) s" by (metis Cons_prefix_Cons)
    with pt have "60 \<in> set (tl N)" by (rule prefix_straddle)
    with that(2) show False by simp
  qed
  from assms(2) marker_shape(5,7) obtain t where m: "M @ y = 60 # t" by (metis append_Cons)
  from straddle [OF marker_shape(7,8) np(1)] straddle [OF marker_shape(5,6) np(2)]
  have "\<not> prefix INVOKE_CLOSE (x # (s @ M @ y))" "\<not> prefix INVOKE_OPEN (x # (s @ M @ y))"
    unfolding m by simp_all
  with Cons.IH [OF no] show ?case by simp
qed

lemma dropWhile_append_stop:
  "ys \<noteq> [] \<Longrightarrow> \<not> P (hd ys) \<Longrightarrow> dropWhile P (xs @ ys) = dropWhile P xs @ ys"
  by (induction xs) (auto simp: neq_Nil_conv)

lemma strip_chars_middle:
  assumes "m \<noteq> []" "\<not> P (hd m)" "\<not> P (last m)"
  shows "strip_chars P (a @ m @ b) = dropWhile P a @ m @ rev (dropWhile P (rev b))"
proof -
  from assms(1,2) have "dropWhile P (a @ m @ b) = dropWhile P a @ m @ b"
    by (simp add: dropWhile_append_stop)
  moreover from assms(1,3) have "dropWhile P (rev b @ (rev m @ rev (dropWhile P a)))
      = dropWhile P (rev b) @ (rev m @ rev (dropWhile P a))"
    by (intro dropWhile_append_stop) (simp_all add: hd_rev)
  ultimately show ?thesis by (simp add: strip_chars_def)
qed

lemma is_substring_dropWhile: "is_substring p (dropWhile P s) \<Longrightarrow> is_substring p s"
  by (induction s) (auto split: if_splits)

lemma last_dropWhile: "dropWhile P xs \<noteq> [] \<Longrightarrow> last (dropWhile P xs) = last xs"
  by (metis last_appendR takeWhile_dropWhile_id)

lemma strip_chars_decomp:
  "\<exists>a b. s = a @ strip_chars P s @ b \<and> (\<forall>c\<in>set a. P c) \<and> (\<forall>c\<in>set b. P c)"
proof -
  let ?d = "dropWhile P s"
  have "strip_chars P s @ rev (takeWhile P (rev ?d)) = rev (takeWhile P (rev ?d) @ dropWhile P (rev ?d))"
    by (simp only: strip_chars_def rev_append)
  also have "\<dots> = rev (rev ?d)" by (simp only: takeWhile_dropWhile_id)
  finally have d: "?d = strip_chars P s @ rev (takeWhile P (rev ?d))" by simp
  have "s = takeWhile P s @ ?d" by simp
  with d have "s = takeWhile P s @ strip_chars P s @ rev (takeWhile P (rev ?d))" by simp
  moreover have "\<forall>c\<in>set (takeWhile P s). P c" by (auto dest: set_takeWhileD)
  moreover have "\<forall>c\<in>set (rev (takeWhile P (rev ?d))). P c" by (auto dest: set_takeWhileD)
  ultimately show ?thesis by blast
qed

lemma strip_chars_ends:
  assumes "strip_chars P s \<noteq> []"
  shows "\<not> P (hd (strip_chars P s))" "\<not> P (last (strip_chars P s))"
proof -
  let ?d = "dropWhile P s" and ?e = "dropWhile P (rev (dropWhile P s))"
  from assms have e: "?e \<noteq> []" by (simp add: strip_chars_def)
  have d: "?d \<noteq> []"
  proof
    assume "?d = []"
    then have "?e = []" by (simp del: dropWhile_eq_Nil_conv)
    with e show False ..
  qed
  from e have "\<not> P (hd ?e)" by (rule hd_dropWhile)
  then show "\<not> P (last (strip_chars P s))" using e by (simp add: strip_chars_def last_rev)
  from e have "last ?e = last (rev ?d)" by (rule last_dropWhile)
  with d have "last ?e = hd ?d" by (simp add: last_rev)
  moreover from d have "\<not> P (hd ?d)" by (rule hd_dropWhile)
  ultimately show "\<not> P (hd (strip_chars P s))" using e by (simp add: strip_chars_def hd_rev)
qed

lemma strip_then_quotes:
  "\<exists>w1 q1 q2 w2. g = w1 @ q1 @ strip_quotes (strip g) @ q2 @ w2
     \<and> strip g = q1 @ strip_quotes (strip g) @ q2
     \<and> (\<forall>c\<in>set (w1 @ w2). is_space c) \<and> (\<forall>c\<in>set (q1 @ q2). c = 34)"
proof -
  from strip_chars_decomp [of g is_space] obtain w1 w2
    where w: "g = w1 @ strip g @ w2" "\<forall>c\<in>set w1. is_space c" "\<forall>c\<in>set w2. is_space c"
    unfolding strip_def by blast
  from strip_chars_decomp [of "strip g" is_quote] obtain q1 q2
    where q: "strip g = q1 @ strip_quotes (strip g) @ q2" "\<forall>c\<in>set q1. is_quote c" "\<forall>c\<in>set q2. is_quote c"
    unfolding strip_quotes_def by blast
  from w(1) q(1) have "g = w1 @ q1 @ strip_quotes (strip g) @ q2 @ w2" by (metis append.assoc)
  with w(2,3) q show ?thesis unfolding is_quote_def by (intro exI [of _ w1] exI [of _ q1] exI [of _ q2] exI [of _ w2]) auto
qed

text \<open>
  Claim C10. When the pattern matches, with the groups \<open>g1\<close> and \<open>g2\<close>, the reasoning
  returned is \<open>g1\<close> and the body handed to the JSON reader is \<open>g2\<close>, each without its
  surrounding whitespace and then without the double quotes at its two ends: a group
  is blanks, quotes, the kept text, quotes, blanks; what is left after the blanks
  neither begins nor ends with a blank, and the kept text neither begins nor ends
  with a double quote. An empty body is not read and stays the empty string.
\<close>

theorem tagged_text_stripping:
  assumes "regex_search (think_shim text) = Some (g1, g2)"
  shows "parse_tagged_text text =
      (if strip_quotes (strip g2) = [] then Inr (Some (strip_quotes (strip g1)), JStr [])
       else case json_loads (strip_quotes (strip g2)) of
              None \<Rightarrow> Inl ValueError
            | Some v \<Rightarrow> Inr (Some (strip_quotes (strip g1)), v))
    \<and> (\<forall>g\<in>{g1, g2}.
         (\<exists>w1 q1 q2 w2. g = w1 @ q1 @ strip_quotes (strip g) @ q2 @ w2
            \<and> strip g = q1 @ strip_quotes (strip g) @ q2
            \<and> (\<forall>c\<in>set (w1 @ w2). is_space c) \<and> (\<forall>c\<in>set (q1 @ q2). c = 34))
         \<and> (strip g \<noteq> [] \<longrightarrow> \<not> is_space (hd (strip g)) \<and> \<not> is_space (last (strip g)))
         \<and> (strip_quotes (strip g) \<noteq> [] \<longrightarrow>
              hd (strip_quotes (strip g)) \<noteq> 34 \<and> last (strip_quotes (strip g)) \<noteq> 34))"
proof (intro conjI ballI)
  from assms show "parse_tagged_text text =
      (if strip_quotes (strip g2) = [] then Inr (Some (strip_quotes (strip g1)), JStr [])
       else case json_loads (strip_quotes (strip g2)) of
              None \<Rightarrow> Inl ValueError
            | Some v \<Rightarrow> Inr (Some (strip_quotes (strip g1)), v))"
    by (simp add: parse_tagged_text_def)
next
  fix g
  show "\<exists>w1 q1 q2 w2. g = w1 @ q1 @ strip_quotes (strip g) @ q2 @ w2
            \<and> strip g = q1 @ strip_quotes (strip g) @ q2
            \<and> (\<forall>c\<in>set (w1 @ w2). is_space c) \<and> (\<forall>c\<in>set (q1 @ q2). c = 34)"
    by (rule strip_then_quotes)
  show "strip g \<noteq> [] \<longrightarrow> \<not> is_space (hd (strip g)) \<and> \<not> is_space (last (strip g))"
    using strip_chars_ends [of is_space g] by (simp add: strip_def)
  show "strip_quotes (strip g) \<noteq> [] \<longrightarrow>
              hd (strip_quotes (strip g)) \<noteq> 34 \<and> last (strip_quotes (strip g)) \<noteq> 34"
    using strip_chars_ends [of is_quote "strip g"] by (simp add: strip_quotes_def is_quote_def)
qed

lemma quoted_reply_match:
  \<open>regex_search (think_shim quoted_reply) = Some (py ''"ok"'', py '' "{"action":"wait"}" '')\<close>
  by (simp add: quoted_reply_def think_shim_def regex_search_def tag_eval)

text \<open>The theorem at a reply whose reasoning is \<^verbatim>\<open>"ok"\<close> in double quotes and whose body
  is wrapped in blanks and stray double quotes: the reasoning returned is \<^verbatim>\<open>ok\<close> and
  the body is parsed.\<close>

theorem tagged_text_stripping_witness:
  \<open>regex_search (think_shim quoted_reply) = Some (py ''"ok"'', py '' "{"action":"wait"}" '')
   \<and> parse_tagged_text quoted_reply = Inr (Some (py ''ok''), JObj [(py ''action'', JStr (py ''wait''))])\<close>
  using tagged_text_stripping [OF quoted_reply_match, THEN conjunct1] quoted_reply_match
  by (simp add: strip_def strip_quotes_def strip_chars_def is_space_def is_quote_def json_eval)

text \<open>
  Claim C2, amended. When no block is found \<^verbatim>\<open>parse_tagged_text\<close> returns both fields
  null, and \<^verbatim>\<open>parse_action_to_structure_output\<close> raises \<^verbatim>\<open>TypeError\<close> on the null
  tool call. When the body of the action block is not empty and is not JSON, both
  functions raise \<^verbatim>\<open>ValueError\<close>, and the reasoning is not returned.
\<close>

theorem parser_failure_modes:
  "(regex_search (think_shim t1) = None \<longrightarrow> parse_tagged_text t1 = Inr (None, JNull))
   \<and> (regex_search (think_shim (strip t2)) = None \<longrightarrow>
        parse_action_to_structure_output t2 = Inl TypeError)
   \<and> (regex_search (think_shim t3) = Some (g1, g2) \<and> strip_quotes (strip g2) \<noteq> []
        \<and> json_loads (strip_quotes (strip g2)) = None \<longrightarrow>
        parse_tagged_text t3 = Inl ValueError)
   \<and> (regex_search (think_shim (strip t4)) = Some (h1, h2) \<and> strip_quotes (strip h2) \<noteq> []
        \<and> json_loads (strip_quotes (strip h2)) = None \<longrightarrow>
        parse_action_to_structure_output t4 = Inl ValueError)"
  by (simp add: parse_tagged_text_def parse_action_to_structure_output_def select_action_def)

lemma untagged_reply_no_match:
  "regex_search (think_shim untagged_reply) = None"
  "regex_search (think_shim (strip untagged_reply)) = None"
  by (simp_all add: untagged_reply_def think_shim_def regex_search_def tag_eval strip_def
      strip_chars_def is_space_def)

lemma malformed_reply_match:
  "regex_search (think_shim malformed_reply) = Some (py ''r'', py ''{bad'')"
  "regex_search (think_shim (strip malformed_reply)) = Some (py ''r'', py ''{bad'')"
  by (simp_all add: malformed_reply_def think_shim_def regex_search_def tag_eval strip_def
      strip_chars_def is_space_def)

lemma malformed_body:
  "strip_quotes (strip (py ''{bad'')) \<noteq> []" "json_loads (strip_quotes (strip (py ''{bad''))) = None"
  by (simp_all add: strip_def strip_quotes_def strip_chars_def is_space_def is_quote_def json_eval)

text \<open>The theorem at a text without markers and at a reply whose body is \<^verbatim>\<open>{bad\<close>.\<close>

theorem parser_failure_modes_witness:
  "parse_tagged_text untagged_reply = Inr (None, JNull)
   \<and> parse_action_to_structure_output untagged_reply = Inl TypeError
   \<and> parse_tagged_text malformed_reply = Inl ValueError
   \<and> parse_action_to_structure_output malformed_reply = Inl ValueError"
  using parser_failure_modes [of untagged_reply untagged_reply malformed_reply "py ''r''" "py ''{bad''"
      malformed_reply "py ''r''" "py ''{bad''"]
    untagged_reply_no_match malformed_reply_match malformed_body
  by simp

text \<open>
  Claim C2 as stated fails: on the body \<^verbatim>\<open>{bad\<close> the parser raises instead of
  returning the reasoning with a null action, and on a text without markers
  \<^verbatim>\<open>parse_action_to_structure_output\<close> raises instead of returning two nulls.
\<close>

theorem parser_failure_modes_counterexample:
  "parse_tagged_text malformed_reply = Inl ValueError
   \<and> parse_tagged_text malformed_reply \<noteq> Inr (Some (py ''r''), JNull)
   \<and> parse_action_to_structure_output malformed_reply = Inl ValueError
   \<and> parse_action_to_structure_output untagged_reply = Inl TypeError
   \<and> parse_action_to_structure_output untagged_reply \<noteq> Inr (None, JNull)"
proof -
  have "parse_tagged_text malformed_reply = Inl ValueError"
    using malformed_reply_match(1) malformed_body by (simp add: parse_tagged_text_def)
  moreover have "parse_action_to_structure_output malformed_reply = Inl ValueError"
    using malformed_reply_match(2) malformed_body
    by (simp add: parse_action_to_structure_output_def parse_tagged_text_def)
  moreover have "parse_action_to_structure_output untagged_reply = Inl TypeError"
    using untagged_reply_no_match(2)
    by (simp add: parse_action_to_structure_output_def parse_tagged_text_def select_action_def)
  ultimately show ?thesis by simp
qed

lemma not_substring_find_sub: "\<not> is_substring p s \<Longrightarrow> find_sub p s = None"
  using is_substring_find_sub [of p s] by blast

lemma regex_search_blocks:
  assumes "\<not> is_substring THINKING_OPEN pre" "\<not> is_substring THINKING_CLOSE r"
    and "\<not> is_substring INVOKE_OPEN sep" "\<not> is_substring INVOKE_CLOSE sep"
    and "M = INVOKE_OPEN \<or> M = INVOKE_CLOSE"
  shows "regex_search (pre @ THINKING_OPEN @ r @ THINKING_CLOSE @ sep @ M @ y) =
     (case find_sub INVOKE_CLOSE y of None \<Rightarrow> None | Some (g2, after) \<Rightarrow> Some (r, g2))"
proof -
  from assms(1) have "find_sub THINKING_OPEN pre = None" by (rule not_substring_find_sub)
  from find_sub_first [OF marker_shape(1,2) this]
  have a: "find_sub THINKING_OPEN (pre @ THINKING_OPEN @ r @ THINKING_CLOSE @ sep @ M @ y)
      = Some (pre, r @ THINKING_CLOSE @ sep @ M @ y)" .
  from assms(2) have "find_sub THINKING_CLOSE r = None" by (rule not_substring_find_sub)
  from find_sub_first [OF marker_shape(3,4) this]
  have b: "find_sub THINKING_CLOSE (r @ THINKING_CLOSE @ sep @ M @ y) = Some (r, sep @ M @ y)" .
  from assms(3,4) have "find_open sep = None" by (simp add: find_open_None)
  from find_open_marker [OF this assms(5)]
  have c: "find_open (sep @ M @ y) = Some y" .
  show ?thesis by (simp add: regex_search_def a b c)
qed

lemma think_shim_closed: "think_shim (a @ THINKING_CLOSE @ b) = a @ THINKING_CLOSE @ b"
  by (simp add: think_shim_def is_substring_middle)

lemma parse_tagged_blocks:
  assumes "\<not> is_substring THINKING_OPEN pre" "\<not> is_substring THINKING_CLOSE r"
    and "\<not> is_substring INVOKE_OPEN sep" "\<not> is_substring INVOKE_CLOSE sep"
    and "M = INVOKE_OPEN \<or> M = INVOKE_CLOSE"
  shows "parse_tagged_text (pre @ THINKING_OPEN @ r @ THINKING_CLOSE @ sep @ M @ y) =
     (case find_sub INVOKE_CLOSE y of
        None \<Rightarrow> Inr (None, JNull)
      | Some (g2, after) \<Rightarrow>
          if strip_quotes (strip g2) = [] then Inr (Some (strip_quotes (strip r)), JStr [])
          else case json_loads (strip_quotes (strip g2)) of
                 None \<Rightarrow> Inl ValueError
               | Some v \<Rightarrow> Inr (Some (strip_quotes (strip r)), v))"
proof -
  have "think_shim (pre @ THINKING_OPEN @ r @ THINKING_CLOSE @ sep @ M @ y)
      = pre @ THINKING_OPEN @ r @ THINKING_CLOSE @ sep @ M @ y"
    using think_shim_closed [of "pre @ THINKING_OPEN @ r" "sep @ M @ y"] by simp
  with regex_search_blocks [OF assms, of y] show ?thesis
    by (simp add: parse_tagged_text_def split: option.splits)
qed

lemma strip_blocks:
  assumes "M = INVOKE_OPEN \<or> M = INVOKE_CLOSE"
  shows "strip (pre @ THINKING_OPEN @ r @ THINKING_CLOSE @ sep @ M @ body @ INVOKE_CLOSE @ post) =
     dropWhile is_space pre @ THINKING_OPEN @ r @ THINKING_CLOSE @ sep @ M @ body @ INVOKE_CLOSE
       @ rev (dropWhile is_space (rev post))"
proof -
  let ?m = "THINKING_OPEN @ r @ THINKING_CLOSE @ sep @ M @ body @ INVOKE_CLOSE"
  have "?m \<noteq> []" "\<not> is_space (hd ?m)" "\<not> is_space (last ?m)"
    by (simp_all add: tag_eval is_space_def)
  from strip_chars_middle [OF this, of pre post] show ?thesis by (simp add: strip_def)
qed

text \<open>
  Claim C8. A text made of a reasoning block and an action block (no
  \<^verbatim>\<open><thinking>\<close> before the reasoning block, no \<^verbatim>\<open></thinking>\<close> inside the reasoning,
  no invoke marker between the two blocks) is parsed to the same result whether the
  action block opens with \<^verbatim>\<open><invoke>\<close> or with \<^verbatim>\<open></invoke>\<close>. A wrapped tool call,
  whose \<^verbatim>\<open>arguments\<close> entry is an action, and the direct tool call that is this
  action (a dict with the key \<^verbatim>\<open>action\<close> and without the key \<^verbatim>\<open>arguments\<close>) are
  parsed to the same normalized action.
\<close>

theorem marker_and_wrapper_tolerance:
  assumes "\<not> is_substring THINKING_OPEN pre" and "\<not> is_substring THINKING_CLOSE r"
    and "\<not> is_substring INVOKE_OPEN sep" and "\<not> is_substring INVOKE_CLOSE sep"
    and "parse_tagged_text (strip wrapped) = Inr (th, JObj w)"
    and "map_of w ARGUMENTS = Some (JObj a)"
    and "parse_tagged_text (strip direct) = Inr (th, JObj a)"
    and "map_of a ACTION \<noteq> None" and "map_of a ARGUMENTS = None"
  shows "parse_tagged_text (pre @ THINKING_OPEN @ r @ THINKING_CLOSE @ sep @ INVOKE_OPEN @ body @ INVOKE_CLOSE @ post)
       = parse_tagged_text (pre @ THINKING_OPEN @ r @ THINKING_CLOSE @ sep @ INVOKE_CLOSE @ body @ INVOKE_CLOSE @ post)
    \<and> parse_action_to_structure_output
         (pre @ THINKING_OPEN @ r @ THINKING_CLOSE @ sep @ INVOKE_OPEN @ body @ INVOKE_CLOSE @ post)
       = parse_action_to_structure_output
         (pre @ THINKING_OPEN @ r @ THINKING_CLOSE @ sep @ INVOKE_CLOSE @ body @ INVOKE_CLOSE @ post)
    \<and> parse_action_to_structure_output wrapped = parse_action_to_structure_output direct"
proof (intro conjI)
  show "parse_tagged_text (pre @ THINKING_OPEN @ r @ THINKING_CLOSE @ sep @ INVOKE_OPEN @ body @ INVOKE_CLOSE @ post)
       = parse_tagged_text (pre @ THINKING_OPEN @ r @ THINKING_CLOSE @ sep @ INVOKE_CLOSE @ body @ INVOKE_CLOSE @ post)"
    using parse_tagged_blocks [OF assms(1-4), of INVOKE_OPEN "body @ INVOKE_CLOSE @ post"]
      parse_tagged_blocks [OF assms(1-4), of INVOKE_CLOSE "body @ INVOKE_CLOSE @ post"]
    by simp
next
  from assms(1) have p: "\<not> is_substring THINKING_OPEN (dropWhile is_space pre)"
    using is_substring_dropWhile by blast
  let ?post = "rev (dropWhile is_space (rev post))"
  have "parse_tagged_text (strip (pre @ THINKING_OPEN @ r @ THINKING_CLOSE @ sep @ INVOKE_OPEN @ body @ INVOKE_CLOSE @ post))
      = parse_tagged_text (strip (pre @ THINKING_OPEN @ r @ THINKING_CLOSE @ sep @ INVOKE_CLOSE @ body @ INVOKE_CLOSE @ post))"
    using parse_tagged_blocks [OF p assms(2-4), of INVOKE_OPEN "body @ INVOKE_CLOSE @ ?post"]
      parse_tagged_blocks [OF p assms(2-4), of INVOKE_CLOSE "body @ INVOKE_CLOSE @ ?post"]
    by (simp add: strip_blocks)
  then show "parse_action_to_structure_output
         (pre @ THINKING_OPEN @ r @ THINKING_CLOSE @ sep @ INVOKE_OPEN @ body @ INVOKE_CLOSE @ post)
       = parse_action_to_structure_output
         (pre @ THINKING_OPEN @ r @ THINKING_CLOSE @ sep @ INVOKE_CLOSE @ body @ INVOKE_CLOSE @ post)"
    by (simp only: parse_action_to_structure_output_def)
next
  from assms(6) have "select_action (JObj w) = Inr (JObj a)"
    by (simp add: select_action_def py_in_dict)
  moreover from assms(8,9) have "select_action (JObj a) = Inr (JObj a)"
    by (auto simp: select_action_def py_in_dict)
  ultimately show "parse_action_to_structure_output wrapped = parse_action_to_structure_output direct"
    using assms(5,7) by (simp add: parse_action_to_structure_output_def)
qed


lemma sample_blocks:
  "\<not> is_substring THINKING_OPEN []" "\<not> is_substring THINKING_CLOSE (py ''ok'')"
  "\<not> is_substring INVOKE_OPEN (py '' '')" "\<not> is_substring INVOKE_CLOSE (py '' '')"
  by (simp_all add: tag_eval)

lemma sample_block_texts:
  \<open>open_reply = [] @ THINKING_OPEN @ py ''ok'' @ THINKING_CLOSE @ py '' '' @ INVOKE_OPEN
      @ py ''{"action":"wait"}'' @ INVOKE_CLOSE @ []\<close>
  \<open>close_reply = [] @ THINKING_OPEN @ py ''ok'' @ THINKING_CLOSE @ py '' '' @ INVOKE_CLOSE
      @ py ''{"action":"wait"}'' @ INVOKE_CLOSE @ []\<close>
  by (simp_all add: open_reply_def close_reply_def tag_eval)

lemma wrapped_reply_parsed:
  "parse_tagged_text (strip wrapped_reply) =
     Inr (Some (py ''ok''),
          JObj [(py ''name'', JStr (py ''desktop_use'')), (ARGUMENTS, JObj [(ACTION, JStr (py ''wait''))])])"
  by (simp add: wrapped_reply_def parser_eval tag_eval key_eval json_eval)

lemma direct_reply_parsed:
  "parse_tagged_text (strip direct_reply) = Inr (Some (py ''ok''), JObj [(ACTION, JStr (py ''wait''))])"
  by (simp add: direct_reply_def parser_eval tag_eval key_eval json_eval)

lemma sample_wrapper:
  "map_of [(py ''name'', JStr (py ''desktop_use'')), (ARGUMENTS, JObj [(ACTION, JStr (py ''wait''))])] ARGUMENTS
     = Some (JObj [(ACTION, JStr (py ''wait''))])"
  "map_of [(ACTION, JStr (py ''wait''))] ACTION \<noteq> None"
  "map_of [(ACTION, JStr (py ''wait''))] ARGUMENTS = None"
  by (simp_all add: key_eval)

lemma open_reply_value:
  "parse_action_to_structure_output open_reply = Inr (Some (py ''ok''), JObj [(ACTION, JStr (py ''wait''))])"
  by (simp add: open_reply_def parser_eval tag_eval key_eval json_eval)

lemma direct_reply_value:
  "parse_action_to_structure_output direct_reply = Inr (Some (py ''ok''), JObj [(ACTION, JStr (py ''wait''))])"
  by (simp add: direct_reply_def parser_eval tag_eval key_eval json_eval)

text \<open>The theorem at a reply whose action block opens with either marker, and at a wrapped
  and a direct body of the wait action.\<close>

theorem marker_and_wrapper_tolerance_witness:
  "parse_tagged_text open_reply = parse_tagged_text close_reply
   \<and> parse_action_to_structure_output open_reply = parse_action_to_structure_output close_reply
   \<and> parse_action_to_structure_output close_reply = Inr (Some (py ''ok''), JObj [(ACTION, JStr (py ''wait''))])
   \<and> parse_action_to_structure_output wrapped_reply = parse_action_to_structure_output direct_reply
   \<and> parse_action_to_structure_output wrapped_reply = Inr (Some (py ''ok''), JObj [(ACTION, JStr (py ''wait''))])"
proof -
  note t = marker_and_wrapper_tolerance [OF sample_blocks wrapped_reply_parsed sample_wrapper(1)
      direct_reply_parsed sample_wrapper(2,3), of \<open>py ''{"action":"wait"}''\<close> "[]",
      folded sample_block_texts]
  from t open_reply_value direct_reply_value show ?thesis by simp
qed

end
